theory Spec2Isabelle
  imports Main "HOL-Library.Sublist"
begin

unbundle bit_operations_syntax

section \<open>The segment muxer of libavformat/segment.c\<close>

text \<open>
  A shallow embedding of \<^verbatim>\<open>src/libavformat/segment.c\<close>. Every C function of the file is
  a HOL function of the same name. What the C code mutates through pointers is passed in and
  returned. A run that leaves the allocated array (or reads a cell that was never written)
  stops with a \<open>fault\<close>: C gives such a run no meaning.

  The integers of the C code (\<^verbatim>\<open>int\<close>, \<^verbatim>\<open>int64_t\<close>) are modelled by \<open>int\<close>. The
  counters only go up by one from zero and are not reduced to their width. The product of
  line 254 can leave the 64 bits for a large \<^verbatim>\<open>segment_time\<close>: the model gives it the value
  the two's complement machine gives it (\<open>int64_wrap\<close>).
  \<^verbatim>\<open>seg->time\<close> is a float; the model starts from \<^verbatim>\<open>recording_time\<close>, the integer that
  \<^verbatim>\<open>seg_write_header\<close> computes from it.
\<close>

subsection \<open>Faults, return codes, the valid-frames array\<close>

datatype fault =
    OutOfBoundsWrite int nat  \<comment> \<open>index written, entries allocated\<close>
  | OutOfBoundsRead int nat   \<comment> \<open>index read, entries allocated\<close>
  | UninitialisedRead int
  | NullDereference

text \<open>\<^verbatim>\<open>AVERROR(e)\<close> is \<open>- e\<close>; \<^verbatim>\<open>ENOMEM\<close> is 12 and \<^verbatim>\<open>EINVAL\<close> is 22.\<close>

definition AVERROR_ENOMEM :: int where
  "AVERROR_ENOMEM = - 12"

definition AVERROR_EINVAL :: int where
  "AVERROR_EINVAL = - 22"

definition AVERROR_MUXER_NOT_FOUND :: int where
  "AVERROR_MUXER_NOT_FOUND = - 1481985528"

text \<open>
  A block of \<^verbatim>\<open>int64_t\<close> cells returned by the allocator: one list element per allocated
  entry, \<open>None\<close> for a cell that has not been written yet.
\<close>

type_synonym int64_array = "int option list"

definition array_write :: "int64_array \<Rightarrow> int \<Rightarrow> int \<Rightarrow> fault + int64_array" where
  "array_write a i v =
     (if 0 \<le> i \<and> nat i < length a then Inr (a[nat i := Some v])
      else Inl (OutOfBoundsWrite i (length a)))"

definition array_read :: "int64_array \<Rightarrow> int \<Rightarrow> fault + int" where
  "array_read a i =
     (if 0 \<le> i \<and> nat i < length a
      then (case a ! nat i of Some v \<Rightarrow> Inr v | None \<Rightarrow> Inl (UninitialisedRead i))
      else Inl (OutOfBoundsRead i (length a)))"

subsection \<open>The C library functions \<^verbatim>\<open>parse_valid_frames\<close> calls\<close>

text \<open>
  \<^verbatim>\<open>strtol(frame, NULL, 10)\<close>: leading white space, an optional sign, then the longest run
  of decimal digits (none gives 0); the result saturates at the bounds of \<^verbatim>\<open>long\<close>
  (64 bits here).
\<close>

definition isspace_c :: "char \<Rightarrow> bool" where
  "isspace_c c = (c = CHR '' '' \<or> c = CHR 0x09 \<or> c = CHR 0x0A \<or> c = CHR 0x0B
                  \<or> c = CHR 0x0C \<or> c = CHR 0x0D)"

definition isdigit_c :: "char \<Rightarrow> bool" where
  "isdigit_c c = (48 \<le> (of_char c :: nat) \<and> (of_char c :: nat) \<le> 57)"

definition digit_val :: "char \<Rightarrow> int" where
  "digit_val c = int (of_char c) - 48"

definition LONG_MAX :: int where
  "LONG_MAX = 9223372036854775807"

definition LONG_MIN :: int where
  "LONG_MIN = - 9223372036854775808"

definition strtol :: "string \<Rightarrow> int" where
  "strtol s =
     (let s1 = dropWhile isspace_c s;
          neg = (case s1 of [] \<Rightarrow> False | c # r \<Rightarrow> c = CHR ''-'');
          s2 = (case s1 of [] \<Rightarrow> []
                | c # r \<Rightarrow> if c = CHR ''-'' \<or> c = CHR ''+'' then r else s1);
          v = foldl (\<lambda>acc c. acc * 10 + digit_val c) 0 (takeWhile isdigit_c s2)
      in if neg then max (- v) LONG_MIN else min v LONG_MAX)"

text \<open>
  Modelled from the spec: \<^verbatim>\<open>av_strtok\<close> (libavutil) is not under src/. The input is
  "a list of integers separated by a delimiter"; as \<^verbatim>\<open>strtok_r\<close> does, each call skips the
  delimiters in front and returns the run of other characters that follows, so the tokens
  of a string are its maximal delimiter-free runs. \<open>av_strtok_all\<close> lists the tokens that
  the successive calls of the loop of \<^verbatim>\<open>parse_valid_frames\<close> return.
\<close>

function av_strtok_all :: "char \<Rightarrow> string \<Rightarrow> string list" where
  "av_strtok_all d [] = []"
| "av_strtok_all d (c # cs) =
     (if c = d then av_strtok_all d cs
      else takeWhile (\<lambda>x. x \<noteq> d) (c # cs) # av_strtok_all d (dropWhile (\<lambda>x. x \<noteq> d) cs))"
  by pat_completeness auto
termination
  by (relation "measure (\<lambda>(d, s). length s)") (auto simp: length_dropWhile_le le_imp_less_Suc)

subsection \<open>\<^verbatim>\<open>parse_valid_frames\<close>\<close>

text \<open>The first loop (lines 60 to 63): the number of commas in the string.\<close>

primrec count_commas :: "string \<Rightarrow> nat" where
  "count_commas [] = 0"
| "count_commas (c # cs) = (if c = CHR '','' then Suc (count_commas cs) else count_commas cs)"

text \<open>
  The second loop (lines 72 to 85), over the tokens still to come: \<open>i\<close> is the loop index,
  \<open>a\<close> the array. It returns the function's return code and the array, or the fault of
  a store outside the array.
\<close>

fun parse_loop :: "string list \<Rightarrow> int \<Rightarrow> int64_array \<Rightarrow> fault + (int \<times> int64_array)" where
  "parse_loop [] i a = Inr (0, a)"
| "parse_loop (frame # rest) i a =
     (case array_write a i (strtol frame) of
        Inl f \<Rightarrow> Inl f
      | Inr a1 \<Rightarrow>
          (if i \<noteq> 0 then
             (case array_read a1 i of
                Inl f \<Rightarrow> Inl f
              | Inr cur \<Rightarrow>
                  (case array_read a1 (i - 1) of
                     Inl f \<Rightarrow> Inl f
                   | Inr prev \<Rightarrow>
                       if cur \<le> prev then Inr (AVERROR_EINVAL, a1)
                       else parse_loop rest (i + 1) a1))
           else parse_loop rest (i + 1) a1))"

text \<open>
  \<open>parse_valid_frames alloc_ok str\<close> returns the return code, \<^verbatim>\<open>*valid_frames\<close> (\<open>None\<close> is
  \<^verbatim>\<open>NULL\<close>) and \<^verbatim>\<open>*nb_valid_frames\<close>. \<open>alloc_ok\<close> says whether \<^verbatim>\<open>av_realloc_f\<close> returns a
  block; the block it is asked for has \<open>i\<close> entries, \<open>i\<close> the number of commas (line 66).
\<close>

definition parse_valid_frames ::
  "bool \<Rightarrow> string \<Rightarrow> fault + (int \<times> int64_array option \<times> int)" where
  "parse_valid_frames alloc_ok valid_frames_str =
     (let i = count_commas valid_frames_str;
          nb_valid_frames = int i + 1
      in if \<not> alloc_ok then Inr (AVERROR_ENOMEM, None, nb_valid_frames)
         else (case parse_loop (av_strtok_all (CHR '','') valid_frames_str) 0 (replicate i None) of
                 Inl f \<Rightarrow> Inl f
               | Inr (ret, a) \<Rightarrow> Inr (ret, Some a, nb_valid_frames)))"

subsection \<open>Streams, packets and the library functions of the packet path\<close>

datatype AVMediaType = AVMEDIA_TYPE_VIDEO | AVMEDIA_TYPE_AUDIO | AVMEDIA_TYPE_SUBTITLE

record AVStream =
  codec_type :: AVMediaType
  time_base :: "int \<times> int"  \<comment> \<open>numerator, denominator\<close>

record AVPacket =
  stream_index :: int
  pts :: int
  flags :: int

definition AV_PKT_FLAG_KEY :: int where
  "AV_PKT_FLAG_KEY = 1"

definition AV_TIME_BASE_Q :: "int \<times> int" where
  "AV_TIME_BASE_Q = (1, 1000000)"

text \<open>
  Modelled from the spec: \<^verbatim>\<open>av_compare_ts\<close> (libavutil) is not under src/. It compares
  "the packet's timestamp (converted to a common time base)" with the boundary: the result
  is negative, zero or positive as \<open>ts_a\<close> in time base \<open>tb_a\<close> is before, at or after
  \<open>ts_b\<close> in time base \<open>tb_b\<close>. Both sides are brought to the common denominator.
\<close>

definition av_compare_ts :: "int \<Rightarrow> int \<times> int \<Rightarrow> int \<Rightarrow> int \<times> int \<Rightarrow> int" where
  "av_compare_ts ts_a tb_a ts_b tb_b =
     (let a = fst tb_a * snd tb_b;
          b = fst tb_b * snd tb_a
      in sgn (ts_a * a - ts_b * b))"

text \<open>
  An \<^verbatim>\<open>int64_t\<close> result that left the 64 bits, as the machine keeps it: the value modulo
  \<open>2 ^ 64\<close> in the range from \<open>- 2 ^ 63\<close> to \<open>2 ^ 63 - 1\<close>.
\<close>

definition int64_wrap :: "int \<Rightarrow> int" where
  "int64_wrap x = (x + 9223372036854775808) mod 18446744073709551616 - 9223372036854775808"

text \<open>The \<^verbatim>\<open>%\<close> of C on \<^verbatim>\<open>int\<close>: the remainder of the division that truncates.\<close>

definition c_rem :: "int \<Rightarrow> int \<Rightarrow> int" where
  "c_rem a b = a - b * (sgn a * sgn b * (\<bar>a\<bar> div \<bar>b\<bar>))"

subsection \<open>The session: contexts, the calls made so far, the playlist file\<close>

text \<open>
  What the muxer does to the outside is recorded as a list of events, oldest first. A sink
  is named by the path it was opened on.
\<close>

datatype event =
    AvioOpen string int          \<comment> \<open>\<^verbatim>\<open>avio_open2\<close> on the path, and its return code\<close>
  | AvioClose "string option"    \<comment> \<open>\<^verbatim>\<open>avio_close\<close> on the sink opened on the path\<close>
  | AvioPrintf string string     \<comment> \<open>the list's path, the line printed and flushed\<close>
  | WriteHeader string int       \<comment> \<open>the segment's file name, the return code\<close>
  | WriteTrailer string int
  | WritePacket string int
  | AvLogError string
  | OptFree
  | FreePriv
  | FreeContext

record SegmentContext =
  number :: int
  list_seg :: "string option"          \<comment> \<open>\<^verbatim>\<open>seg->list\<close>, \<open>None\<close> for \<^verbatim>\<open>NULL\<close>\<close>
  size_seg :: int                      \<comment> \<open>\<^verbatim>\<open>seg->size\<close>\<close>
  wrap :: int
  recording_time :: int
  has_video :: int
  valid_frames_str :: "string option"
  valid_frames :: "int64_array option"
  nb_valid_frames :: int
  next_valid_frame :: int
  next_valid_frame_index :: int
  frame_count :: int

text \<open>
  The fields of the inner \<^verbatim>\<open>AVFormatContext\<close> (\<^verbatim>\<open>seg->avf\<close>) that the file uses. \<open>pb\<close> is
  the path of the sink last opened for it; \<open>priv_data\<close> says whether the writer's private
  state is allocated.
\<close>

record AVFormatContext =
  filename :: string
  pb :: "string option"
  priv_data :: bool
  streams :: "AVStream list"

record session =
  s_filename :: string                 \<comment> \<open>\<^verbatim>\<open>s->filename\<close>, the name pattern\<close>
  s_streams :: "AVStream list"         \<comment> \<open>\<^verbatim>\<open>s->streams\<close>\<close>
  seg :: SegmentContext
  oc :: AVFormatContext
  events :: "event list"
  playlist :: "string list"            \<comment> \<open>the lines of the playlist file\<close>

text \<open>
  The container writer \<^verbatim>\<open>oc->oformat\<close> and the other collaborators are parameters. Each
  return code may depend on the events so far. A \<open>write_trailer\<close> of \<open>None\<close> is a writer
  with no trailer function.
\<close>

record AVOutputFormat =
  nofile :: bool                       \<comment> \<open>\<^verbatim>\<open>flags & AVFMT_NOFILE\<close>\<close>
  priv_data_size :: int
  priv_class :: bool                   \<comment> \<open>\<^verbatim>\<open>priv_class\<close> is not \<^verbatim>\<open>NULL\<close>\<close>
  write_header :: "event list \<Rightarrow> int"
  write_packet :: "event list \<Rightarrow> AVPacket \<Rightarrow> int"
  write_trailer :: "(event list \<Rightarrow> int) option"

record env =
  avformat_alloc_context :: "event list \<Rightarrow> bool"   \<comment> \<open>the result is not \<^verbatim>\<open>NULL\<close>\<close>
  av_realloc_f :: "event list \<Rightarrow> bool"
  av_mallocz :: "event list \<Rightarrow> bool"
  avio_open2 :: "event list \<Rightarrow> string \<Rightarrow> int"
  av_get_frame_filename :: "string \<Rightarrow> int \<Rightarrow> string option"  \<comment> \<open>\<open>None\<close>: a negative result\<close>
  av_guess_format :: "AVOutputFormat option"
  avformat_write_header :: "event list \<Rightarrow> int"

definition log_ev :: "event \<Rightarrow> session \<Rightarrow> session" where
  "log_ev ev st = st\<lparr>events := events st @ [ev]\<rparr>"

text \<open>The number of segments started so far: the header writes that succeeded.\<close>

fun header_written :: "event \<Rightarrow> bool" where
  "header_written (WriteHeader fn r) = (0 \<le> r)"
| "header_written ev = False"

definition segments_started :: "session \<Rightarrow> int" where
  "segments_started st = int (length (filter header_written (events st)))"

subsection \<open>\<^verbatim>\<open>segment_start\<close> and \<^verbatim>\<open>segment_end\<close>\<close>

text \<open>
  \<open>fmt\<close> is \<^verbatim>\<open>oc->oformat\<close>. When \<^verbatim>\<open>av_get_frame_filename\<close> fails the model leaves
  \<^verbatim>\<open>oc->filename\<close> as it was.
\<close>

definition segment_start :: "env \<Rightarrow> AVOutputFormat \<Rightarrow> session \<Rightarrow> int \<times> session" where
  "segment_start e fmt st =
     (let sg = seg st;
          sg1 = (if wrap sg \<noteq> 0 then sg\<lparr>number := c_rem (number sg) (wrap sg)\<rparr> else sg);
          idx = number sg1;
          st1 = st\<lparr>seg := sg1\<lparr>number := idx + 1\<rparr>\<rparr>
      in case av_get_frame_filename e (s_filename st1) idx of
           None \<Rightarrow> (AVERROR_EINVAL, st1)
         | Some fn \<Rightarrow>
             (let st2 = st1\<lparr>oc := (oc st1)\<lparr>filename := fn\<rparr>\<rparr>;
                  err = avio_open2 e (events st2) fn;
                  st3 = log_ev (AvioOpen fn err) st2
              in if err < 0 then (err, st3)
                 else
                   (let st4 = st3\<lparr>oc := (oc st3)\<lparr>pb := Some fn\<rparr>\<rparr>;
                        need = (\<not> priv_data (oc st4) \<and> 0 < priv_data_size fmt)
                    in if need \<and> \<not> av_mallocz e (events st4)
                       then (AVERROR_ENOMEM, log_ev (AvioClose (pb (oc st4))) st4)
                       else
                         (let st5 = (if need then st4\<lparr>oc := (oc st4)\<lparr>priv_data := True\<rparr>\<rparr>
                                     else st4);
                              err2 = write_header fmt (events st5);
                              st6 = log_ev (WriteHeader fn err2) st5
                          in if err2 < 0
                             then (let st7 = log_ev (AvLogError fn) st6;
                                       st8 = log_ev (AvioClose (pb (oc st7))) st7;
                                       st9 = log_ev FreePriv st8
                                   in (err2, st9\<lparr>oc := (oc st9)\<lparr>priv_data := False\<rparr>\<rparr>))
                             else (0, st6)))))"

definition segment_end :: "AVOutputFormat \<Rightarrow> session \<Rightarrow> int \<times> session" where
  "segment_end fmt st =
     (let fn = filename (oc st);
          ret = (case write_trailer fmt of None \<Rightarrow> 0 | Some f \<Rightarrow> f (events st));
          st1 = (case write_trailer fmt of None \<Rightarrow> st
                 | Some f \<Rightarrow> log_ev (WriteTrailer fn ret) st);
          st2 = (if ret < 0 then log_ev (AvLogError fn) st1 else st1);
          st3 = log_ev (AvioClose (pb (oc st2))) st2;
          st4 = (if priv_class fmt then log_ev OptFree st3 else st3);
          st5 = log_ev FreePriv st4
      in (ret, st5\<lparr>oc := (oc st5)\<lparr>priv_data := False\<rparr>\<rparr>))"

subsection \<open>\<^verbatim>\<open>seg_write_header\<close>\<close>

text \<open>
  Lines 179 to 186: where the cursor into the valid-frames array starts. Both reads of
  \<^verbatim>\<open>seg->valid_frames\<close> are checked against the entries allocated.
\<close>

definition init_cursor :: "SegmentContext \<Rightarrow> fault + SegmentContext" where
  "init_cursor sg =
     (if nb_valid_frames sg \<noteq> 0 then
        (case valid_frames sg of
           None \<Rightarrow> Inl NullDereference
         | Some a \<Rightarrow>
             (case array_read a 0 of
                Inl f \<Rightarrow> Inl f
              | Inr first \<Rightarrow>
                  (let sg1 = (if first \<noteq> 0 then sg\<lparr>next_valid_frame_index := 0\<rparr>
                              else sg\<lparr>next_valid_frame_index := 1\<rparr>)
                   in case array_read a (next_valid_frame_index sg1) of
                        Inl f \<Rightarrow> Inl f
                      | Inr v \<Rightarrow> Inr (sg1\<lparr>next_valid_frame := v\<rparr>))))
      else Inr sg)"

text \<open>
  Lines 175 to 187. The result is the return code of \<^verbatim>\<open>parse_valid_frames\<close> (0 when no
  string is configured) and the context.
\<close>

definition header_valid_frames :: "env \<Rightarrow> session \<Rightarrow> fault + (int \<times> session)" where
  "header_valid_frames e st =
     (case valid_frames_str (seg st) of
        None \<Rightarrow> Inr (0, st)
      | Some str \<Rightarrow>
          (case parse_valid_frames (av_realloc_f e (events st)) str of
             Inl f \<Rightarrow> Inl f
           | Inr (ret, vf, nb) \<Rightarrow>
               (let sg1 = (seg st)\<lparr>valid_frames := vf, nb_valid_frames := nb\<rparr>
                in if ret < 0 then Inr (ret, st\<lparr>seg := sg1\<rparr>)
                   else (case init_cursor sg1 of
                           Inl f \<Rightarrow> Inl f
                         | Inr sg2 \<Rightarrow> Inr (ret, st\<lparr>seg := sg2\<rparr>)))))"

text \<open>The label \<^verbatim>\<open>fail\<close> of \<^verbatim>\<open>seg_write_header\<close> (lines 236 to 246).\<close>

definition header_fail :: "int \<Rightarrow> session \<Rightarrow> int \<times> session" where
  "header_fail ret st =
     (if ret \<noteq> 0 then
        (let st1 = (log_ev FreeContext st)\<lparr>oc := (oc st)\<lparr>streams := []\<rparr>\<rparr>
         in (ret, case list_seg (seg st1) of
                    None \<Rightarrow> st1
                  | Some l \<Rightarrow> log_ev (AvioClose (Some l)) st1))
      else (ret, st))"

text \<open>
  Opening the playlist for writing (lines 170 to 173 and 292): the code takes
  \<^verbatim>\<open>avio_open2\<close> with \<^verbatim>\<open>AVIO_FLAG_WRITE\<close> from libavformat. Modelled from the spec: to
  "close and reopen the list sink for writing ... discards prior entries", so an open that
  succeeds leaves the playlist file empty.
\<close>

definition open_list :: "env \<Rightarrow> string \<Rightarrow> session \<Rightarrow> int \<times> session" where
  "open_list e l st =
     (let ret = avio_open2 e (events st) l;
          st1 = log_ev (AvioOpen l ret) st
      in (ret, if ret < 0 then st1 else st1\<lparr>playlist := []\<rparr>))"

text \<open>\<^verbatim>\<open>avio_printf(seg->pb, "%s\n", oc->filename)\<close> and \<^verbatim>\<open>avio_flush(seg->pb)\<close>.\<close>

definition print_list :: "string \<Rightarrow> session \<Rightarrow> session" where
  "print_list l st =
     (log_ev (AvioPrintf l (filename (oc st))) st)\<lparr>playlist := playlist st @ [filename (oc st)]\<rparr>"

text \<open>
  Lines 189 to 246, after the valid frames. \<^verbatim>\<open>avformat_write_header\<close> (libavformat)
  allocates the writer's private state when the format has any.
\<close>

definition header_open_first :: "env \<Rightarrow> session \<Rightarrow> int \<times> session" where
  "header_open_first e st0 =
     (let videos = int (length (filter (\<lambda>x. codec_type x = AVMEDIA_TYPE_VIDEO) (s_streams st0)));
          st = st0\<lparr>seg := (seg st0)\<lparr>has_video := has_video (seg st0) + videos\<rparr>\<rparr>
      in case av_guess_format e of
           None \<Rightarrow> header_fail AVERROR_MUXER_NOT_FOUND st
         | Some fmt \<Rightarrow>
             if nofile fmt then header_fail AVERROR_EINVAL st
             else
               (let st1 = st\<lparr>oc := (oc st)\<lparr>streams := s_streams st\<rparr>\<rparr>;
                    idx = number (seg st1);
                    st2 = st1\<lparr>seg := (seg st1)\<lparr>number := idx + 1\<rparr>\<rparr>
                in case av_get_frame_filename e (s_filename st2) idx of
                     None \<Rightarrow> header_fail AVERROR_EINVAL st2
                   | Some fn \<Rightarrow>
                       (let st3 = st2\<lparr>oc := (oc st2)\<lparr>filename := fn\<rparr>\<rparr>;
                            ret = avio_open2 e (events st3) fn;
                            st4 = log_ev (AvioOpen fn ret) st3
                        in if ret < 0 then header_fail ret st4
                           else
                             (let st5 = st4\<lparr>oc := (oc st4)\<lparr>pb := Some fn\<rparr>\<rparr>;
                                  ret2 = avformat_write_header e (events st5);
                                  st6 = log_ev (WriteHeader fn ret2) st5
                              in if ret2 < 0
                                 then header_fail ret2 (log_ev (AvioClose (pb (oc st6))) st6)
                                 else
                                   (let st7 = st6\<lparr>oc := (oc st6)\<lparr>priv_data :=
                                                  (0 < priv_data_size fmt)\<rparr>\<rparr>
                                    in header_fail ret2
                                         (case list_seg (seg st7) of
                                            None \<Rightarrow> st7
                                          | Some l \<Rightarrow> print_list l st7))))))"

text \<open>
  Lines 159 to 173, once \<^verbatim>\<open>avformat_alloc_context\<close> has returned the fresh context
  \<^verbatim>\<open>oc\<close>: the counters are reset and the playlist, if one is configured, is opened. The
  result is the return code of that open (0 without a playlist).
\<close>

definition header_list :: "env \<Rightarrow> session \<Rightarrow> int \<times> session" where
  "header_list e st0 =
     (let st = st0\<lparr>seg := (seg st0)\<lparr>number := 0, nb_valid_frames := 0, frame_count := 0\<rparr>,
                    oc := \<lparr>filename = [], pb = None, priv_data = False, streams = []\<rparr>\<rparr>
      in case list_seg (seg st) of
           None \<Rightarrow> (0, st)
         | Some l \<Rightarrow> open_list e l st)"

text \<open>
  \<^verbatim>\<open>seg_write_header\<close>. A negative result of \<^verbatim>\<open>parse_valid_frames\<close> is returned at once
  (line 177), not through \<^verbatim>\<open>fail\<close>.
\<close>

definition seg_write_header :: "env \<Rightarrow> session \<Rightarrow> fault + (int \<times> session)" where
  "seg_write_header e st0 =
     (if \<not> avformat_alloc_context e (events st0) then
        Inr (AVERROR_ENOMEM,
             st0\<lparr>seg := (seg st0)\<lparr>number := 0, nb_valid_frames := 0, frame_count := 0\<rparr>\<rparr>)
      else
        (let opened = header_list e st0
         in if fst opened < 0 then Inr (header_fail (fst opened) (snd opened))
            else (case header_valid_frames e (snd opened) of
                    Inl f \<Rightarrow> Inl f
                  | Inr (ret, st2) \<Rightarrow>
                      if ret < 0 then Inr (ret, st2)
                      else Inr (header_open_first e st2))))"

subsection \<open>\<^verbatim>\<open>seg_write_packet\<close>\<close>

text \<open>Lines 266 to 269: the cursor moves on by at most one entry per packet.\<close>

definition advance_cursor :: "SegmentContext \<Rightarrow> fault + SegmentContext" where
  "advance_cursor sg =
     (if next_valid_frame sg < frame_count sg
         \<and> next_valid_frame_index sg + 1 < nb_valid_frames sg
      then (let sg1 = sg\<lparr>next_valid_frame_index := next_valid_frame_index sg + 1\<rparr>
            in case valid_frames sg1 of
                 None \<Rightarrow> Inl NullDereference
               | Some a \<Rightarrow>
                   (case array_read a (next_valid_frame_index sg1) of
                      Inl f \<Rightarrow> Inl f
                    | Inr v \<Rightarrow> Inr (sg1\<lparr>next_valid_frame := v\<rparr>)))
      else Inr sg)"

text \<open>
  Lines 253 to 272: the value of \<^verbatim>\<open>can_split\<close> when line 274 tests it, and the context
  with the cursor as the packet leaves it. \<open>strm\<close> is \<^verbatim>\<open>oc->streams[pkt->stream_index]\<close>.
\<close>

definition can_split :: "SegmentContext \<Rightarrow> AVStream \<Rightarrow> AVPacket \<Rightarrow> fault + (bool \<times> SegmentContext)" where
  "can_split sg strm pkt =
     (let end_pts = int64_wrap (recording_time sg * number sg);
          c0 = (has_video sg \<noteq> 0 \<and> codec_type strm = AVMEDIA_TYPE_VIDEO
                \<and> (flags pkt AND AV_PKT_FLAG_KEY) \<noteq> 0);
          c1 = (if av_compare_ts (pts pkt) (time_base strm) end_pts AV_TIME_BASE_Q < 0
                then False else c0)
      in if nb_valid_frames sg \<noteq> 0 then
           (case advance_cursor sg of
              Inl f \<Rightarrow> Inl f
            | Inr sg1 \<Rightarrow>
                Inr (if next_valid_frame sg1 \<noteq> frame_count sg1 then False else c1, sg1))
         else Inr (c1, sg))"

text \<open>The label \<^verbatim>\<open>fail\<close> of \<^verbatim>\<open>seg_write_packet\<close> (lines 304 to 313).\<close>

definition packet_fail :: "int \<Rightarrow> session \<Rightarrow> int \<times> session" where
  "packet_fail ret st =
     (if ret < 0 then
        (let st1 = st\<lparr>oc := (oc st)\<lparr>streams := []\<rparr>\<rparr>;
             st2 = (case list_seg (seg st1) of
                      None \<Rightarrow> st1
                    | Some l \<Rightarrow> log_ev (AvioClose (Some l)) st1)
         in (ret, log_ev FreeContext st2))
      else (ret, st))"

text \<open>Lines 299 to 313: count the video frame, hand the packet to the writer.\<close>

definition forward_packet ::
  "AVOutputFormat \<Rightarrow> AVStream \<Rightarrow> AVPacket \<Rightarrow> session \<Rightarrow> int \<times> session" where
  "forward_packet fmt strm pkt st =
     (let st1 = (if codec_type strm = AVMEDIA_TYPE_VIDEO
                 then st\<lparr>seg := (seg st)\<lparr>frame_count := frame_count (seg st) + 1\<rparr>\<rparr>
                 else st);
          ret = write_packet fmt (events st1) pkt
      in packet_fail ret (log_ev (WritePacket (filename (oc st1)) ret) st1))"

text \<open>Lines 274 to 297: the branch taken when \<^verbatim>\<open>can_split\<close> is set.\<close>

definition split_segment ::
  "env \<Rightarrow> AVOutputFormat \<Rightarrow> AVStream \<Rightarrow> AVPacket \<Rightarrow> session \<Rightarrow> int \<times> session" where
  "split_segment e fmt strm pkt st =
     (let ended = segment_end fmt st;
          started = (if fst ended = 0 then segment_start e fmt (snd ended) else ended);
          ret = fst started;
          st1 = snd started
      in if ret \<noteq> 0 then packet_fail ret st1
         else (case list_seg (seg st1) of
                 None \<Rightarrow> forward_packet fmt strm pkt st1
               | Some l \<Rightarrow>
                   (let st2 = print_list l st1
                    in if size_seg (seg st2) \<noteq> 0
                          \<and> c_rem (number (seg st2)) (size_seg (seg st2)) = 0
                       then (let reopened = open_list e l (log_ev (AvioClose (Some l)) st2)
                             in if fst reopened < 0
                                then packet_fail (fst reopened) (snd reopened)
                                else forward_packet fmt strm pkt (snd reopened))
                       else forward_packet fmt strm pkt st2)))"

text \<open>
  \<^verbatim>\<open>seg_write_packet\<close>. \<^verbatim>\<open>oc->oformat\<close> is the format \<^verbatim>\<open>seg_write_header\<close> stored, the
  result of \<^verbatim>\<open>av_guess_format\<close>.
\<close>

definition seg_write_packet :: "env \<Rightarrow> session \<Rightarrow> AVPacket \<Rightarrow> fault + (int \<times> session)" where
  "seg_write_packet e st pkt =
     (case av_guess_format e of
        None \<Rightarrow> Inl NullDereference
      | Some fmt \<Rightarrow>
          if 0 \<le> stream_index pkt \<and> nat (stream_index pkt) < length (streams (oc st)) then
            (let strm = streams (oc st) ! nat (stream_index pkt)
             in case can_split (seg st) strm pkt of
                  Inl f \<Rightarrow> Inl f
                | Inr (split, sg1) \<Rightarrow>
                    if split then Inr (split_segment e fmt strm pkt (st\<lparr>seg := sg1\<rparr>))
                    else Inr (forward_packet fmt strm pkt (st\<lparr>seg := sg1\<rparr>)))
          else Inl (OutOfBoundsRead (stream_index pkt) (length (streams (oc st)))))"

text \<open>\<^verbatim>\<open>seg_write_trailer\<close> (lines 316 to 327).\<close>

definition seg_write_trailer :: "env \<Rightarrow> session \<Rightarrow> fault + (int \<times> session)" where
  "seg_write_trailer e st =
     (case av_guess_format e of
        None \<Rightarrow> Inl NullDereference
      | Some fmt \<Rightarrow>
          (let ended = segment_end fmt st;
               st1 = (case list_seg (seg (snd ended)) of
                        None \<Rightarrow> snd ended
                      | Some l \<Rightarrow> log_ev (AvioClose (Some l)) (snd ended));
               st2 = st1\<lparr>oc := (oc st1)\<lparr>streams := []\<rparr>\<rparr>
           in Inr (fst ended, log_ev FreeContext st2)))"

text \<open>
  Lines 96 to 100: the index that \<^verbatim>\<open>segment_start\<close> hands to
  \<^verbatim>\<open>av_get_frame_filename\<close>.
\<close>

definition next_index :: "SegmentContext \<Rightarrow> int" where
  "next_index sg = (if wrap sg \<noteq> 0 then c_rem (number sg) (wrap sg) else number sg)"

subsection \<open>Sessions\<close>

text \<open>
  The caller of the muxer hands it one packet after the other and stops at the first
  negative result.
\<close>

fun run_packets :: "env \<Rightarrow> session \<Rightarrow> AVPacket list \<Rightarrow> fault + (int \<times> session)" where
  "run_packets e st [] = Inr (0, st)"
| "run_packets e st (p # ps) =
     (case seg_write_packet e st p of
        Inl f \<Rightarrow> Inl f
      | Inr (r, st1) \<Rightarrow> if r < 0 then Inr (r, st1) else run_packets e st1 ps)"

definition after_header :: "env \<Rightarrow> session \<Rightarrow> session" where
  "after_header e st = (case seg_write_header e st of Inl f \<Rightarrow> st | Inr (r, st1) \<Rightarrow> st1)"

definition after_packets :: "env \<Rightarrow> session \<Rightarrow> AVPacket list \<Rightarrow> session" where
  "after_packets e st ps = (case run_packets e st ps of Inl f \<Rightarrow> st | Inr (r, st1) \<Rightarrow> st1)"

text \<open>
  \<open>session_of e st0 st\<close>: \<^verbatim>\<open>seg_write_header\<close> has opened the session on the context
  \<open>st0\<close> with result 0, and the packets accepted since have led to \<open>st\<close>.
\<close>

inductive session_of :: "env \<Rightarrow> session \<Rightarrow> session \<Rightarrow> bool" for e :: env and st0 :: session where
  opened: "seg_write_header e st0 = Inr (0, st) \<Longrightarrow> session_of e st0 st"
| packet: "session_of e st0 st \<Longrightarrow> seg_write_packet e st pkt = Inr (ret, st1) \<Longrightarrow> 0 \<le> ret
           \<Longrightarrow> session_of e st0 st1"

subsection \<open>A concrete setting\<close>

text \<open>
  A writer and collaborators that never fail, names made of the pattern and one decimal
  digit, a video stream at 25 frames per second beside an audio stream, segments of two
  seconds.
\<close>

definition digit_name :: "string \<Rightarrow> int \<Rightarrow> string option" where
  "digit_name pat n = (if 0 \<le> n \<and> n < 10 then Some (pat @ [''0123456789'' ! nat n]) else None)"

definition plain_writer :: AVOutputFormat where
  "plain_writer = \<lparr>nofile = False, priv_data_size = 16, priv_class = True,
     write_header = (\<lambda>evs. 0), write_packet = (\<lambda>evs pkt. 0), write_trailer = Some (\<lambda>evs. 0)\<rparr>"

definition plain_env :: env where
  "plain_env = \<lparr>avformat_alloc_context = (\<lambda>evs. True), av_realloc_f = (\<lambda>evs. True),
     av_mallocz = (\<lambda>evs. True), avio_open2 = (\<lambda>evs path. 0),
     av_get_frame_filename = digit_name, av_guess_format = Some plain_writer,
     avformat_write_header = (\<lambda>evs. 0)\<rparr>"

definition video_stream :: AVStream where
  "video_stream = \<lparr>codec_type = AVMEDIA_TYPE_VIDEO, time_base = (1, 25)\<rparr>"

definition audio_stream :: AVStream where
  "audio_stream = \<lparr>codec_type = AVMEDIA_TYPE_AUDIO, time_base = (1, 48000)\<rparr>"

definition plain_seg :: SegmentContext where
  "plain_seg = \<lparr>number = 0, list_seg = None, size_seg = 5, wrap = 0,
     recording_time = 2000000, has_video = 0, valid_frames_str = None, valid_frames = None,
     nb_valid_frames = 0, next_valid_frame = 0, next_valid_frame_index = 0, frame_count = 0\<rparr>"

definition plain_session :: session where
  "plain_session = \<lparr>s_filename = ''out'', s_streams = [video_stream, audio_stream],
     seg = plain_seg, oc = \<lparr>filename = [], pb = None, priv_data = False, streams = []\<rparr>,
     events = [], playlist = []\<rparr>"

text \<open>A key frame of the video stream, and a packet of the audio stream.\<close>

definition key_packet :: "int \<Rightarrow> AVPacket" where
  "key_packet t = \<lparr>stream_index = 0, pts = t, flags = 1\<rparr>"

definition audio_packet :: "int \<Rightarrow> AVPacket" where
  "audio_packet t = \<lparr>stream_index = 1, pts = t, flags = 1\<rparr>"




text \<open>
  The setting with valid frames configured: \<^verbatim>\<open>"0,10,"\<close> and \<^verbatim>\<open>"5,10,"\<close>. With the
  comma at the end the block allocated holds both entries.
\<close>

definition zero_first_session :: session where
  "zero_first_session = plain_session\<lparr>seg := plain_seg\<lparr>valid_frames_str := Some ''0,10,''\<rparr>\<rparr>"

definition five_first_session :: session where
  "five_first_session = plain_session\<lparr>seg := plain_seg\<lparr>valid_frames_str := Some ''5,10,''\<rparr>\<rparr>"

definition zero_first_parsed :: session where
  "zero_first_parsed = zero_first_session\<lparr>seg := (seg zero_first_session)
     \<lparr>valid_frames := Some [Some 0, Some 10], nb_valid_frames := 3,
      next_valid_frame := 10, next_valid_frame_index := 1\<rparr>\<rparr>"

text \<open>
  The session the header opens in the plain setting, collaborators with which the sink of
  the second segment cannot be opened, and collaborators whose writer fails to write the
  trailer (the error is \<^verbatim>\<open>AVERROR(EIO)\<close> in both).
\<close>

definition plain_opened :: session where
  "plain_opened = plain_session
     \<lparr>seg := plain_seg\<lparr>number := 1, has_video := 1\<rparr>,
      oc := \<lparr>filename = ''out0'', pb = Some ''out0'', priv_data = True,
              streams = [video_stream, audio_stream]\<rparr>,
      events := [AvioOpen ''out0'' 0, WriteHeader ''out0'' 0]\<rparr>"

definition second_open_fails :: env where
  "second_open_fails =
     plain_env\<lparr>avio_open2 := (\<lambda>evs path. if path = ''out1'' then - 5 else 0)\<rparr>"

definition trailer_fails :: env where
  "trailer_fails =
     plain_env\<lparr>av_guess_format := Some (plain_writer\<lparr>write_trailer := Some (\<lambda>evs. - 5)\<rparr>)\<rparr>"

text \<open>The setting with the valid frames \<^verbatim>\<open>"10,3,20"\<close>, which do not ascend.\<close>

definition descending_session :: session where
  "descending_session = plain_session\<lparr>seg := plain_seg\<lparr>valid_frames_str := Some ''10,3,20''\<rparr>\<rparr>"

text \<open>
  The setting with a playlist of size 2, and the sessions after the third, the fourth and
  the fifth segment have been started.
\<close>

definition list_session :: session where
  "list_session = plain_session\<lparr>seg := plain_seg\<lparr>list_seg := Some ''list'', size_seg := 2\<rparr>\<rparr>"

definition three_listed :: session where
  "three_listed = after_packets plain_env (after_header plain_env list_session)
     [key_packet 50, key_packet 100]"

definition four_listed :: session where
  "four_listed = after_packets plain_env three_listed [key_packet 150]"

definition five_listed :: session where
  "five_listed = after_packets plain_env four_listed [key_packet 200]"

text \<open>
  The setting with \<^verbatim>\<open>segment_wrap\<close> 2, and the sessions after the second and the third
  segment have been started.
\<close>

definition wrap_session :: session where
  "wrap_session = plain_session\<lparr>seg := plain_seg\<lparr>wrap := 2\<rparr>\<rparr>"

definition wrapped_two :: session where
  "wrapped_two = after_packets plain_env (after_header plain_env wrap_session) [key_packet 50]"

definition wrapped_three :: session where
  "wrapped_three = after_packets plain_env wrapped_two [key_packet 100]"

text \<open>
  The setting with \<^verbatim>\<open>segment_wrap\<close> 1 after its second segment has been started, and
  six key frames of the video stream: at 2 and 4 seconds and the four frames that follow.
\<close>

definition wrap_one_session :: session where
  "wrap_one_session = plain_session\<lparr>seg := plain_seg\<lparr>wrap := 1\<rparr>\<rparr>"

definition wrap_one_second :: session where
  "wrap_one_second = after_packets plain_env (after_header plain_env wrap_one_session)
     [key_packet 50]"

definition six_key_frames :: "AVPacket list" where
  "six_key_frames = [key_packet 50, key_packet 100, key_packet 101, key_packet 102,
     key_packet 103, key_packet 104]"



section \<open>Properties\<close>

subsection \<open>What each function leaves unchanged\<close>

lemma log_ev_fields [simp]:
  "seg (log_ev ev st) = seg st" "oc (log_ev ev st) = oc st"
  "events (log_ev ev st) = events st @ [ev]" "playlist (log_ev ev st) = playlist st"
  "s_filename (log_ev ev st) = s_filename st" "s_streams (log_ev ev st) = s_streams st"
  by (simp_all add: log_ev_def)

lemma segments_started_log_ev [simp]:
  "segments_started (log_ev ev st) = segments_started st + (if header_written ev then 1 else 0)"
  by (simp add: segments_started_def)

lemma segments_started_upd [simp]:
  "segments_started (st\<lparr>seg := sg\<rparr>) = segments_started st"
  "segments_started (st\<lparr>oc := c\<rparr>) = segments_started st"
  "segments_started (st\<lparr>playlist := pl\<rparr>) = segments_started st"
  by (simp_all add: segments_started_def)

lemma segment_end_frame:
  "seg (snd (segment_end fmt st)) = seg st"
  "playlist (snd (segment_end fmt st)) = playlist st"
  "s_filename (snd (segment_end fmt st)) = s_filename st"
  "s_streams (snd (segment_end fmt st)) = s_streams st"
  "streams (oc (snd (segment_end fmt st))) = streams (oc st)"
  "filename (oc (snd (segment_end fmt st))) = filename (oc st)"
  "segments_started (snd (segment_end fmt st)) = segments_started st"
  by (simp_all add: segment_end_def Let_def split: option.splits)

lemma segment_start_frame:
  "seg (snd (segment_start e fmt st)) = (seg st)\<lparr>number := next_index (seg st) + 1\<rparr>"
  "playlist (snd (segment_start e fmt st)) = playlist st"
  "s_filename (snd (segment_start e fmt st)) = s_filename st"
  "s_streams (snd (segment_start e fmt st)) = s_streams st"
  "streams (oc (snd (segment_start e fmt st))) = streams (oc st)"
  by (simp_all add: segment_start_def next_index_def Let_def split: option.splits)

lemma segment_start_nonpos: "fst (segment_start e fmt st) \<le> 0"
  by (simp add: segment_start_def Let_def AVERROR_EINVAL_def AVERROR_ENOMEM_def split: option.splits)

lemma segment_start_ok:
  assumes "fst (segment_start e fmt st) = 0"
  shows "segments_started (snd (segment_start e fmt st)) = segments_started st + 1"
    and "av_get_frame_filename e (s_filename st) (next_index (seg st))
           = Some (filename (oc (snd (segment_start e fmt st))))"
  using assms
  by (auto simp: segment_start_def next_index_def Let_def AVERROR_EINVAL_def AVERROR_ENOMEM_def
           split: option.splits if_splits)

lemma packet_fail_frame:
  "fst (packet_fail r st) = r"
  "seg (snd (packet_fail r st)) = seg st"
  "playlist (snd (packet_fail r st)) = playlist st"
  "s_filename (snd (packet_fail r st)) = s_filename st"
  "s_streams (snd (packet_fail r st)) = s_streams st"
  "segments_started (snd (packet_fail r st)) = segments_started st"
  "0 \<le> r \<Longrightarrow> snd (packet_fail r st) = st"
  by (simp_all add: packet_fail_def Let_def split: option.splits)

lemma forward_packet_frame:
  "seg (snd (forward_packet fmt strm pkt st))
     = (seg st)\<lparr>frame_count := frame_count (seg st) + (if codec_type strm = AVMEDIA_TYPE_VIDEO then 1 else 0)\<rparr>"
  "playlist (snd (forward_packet fmt strm pkt st)) = playlist st"
  "s_filename (snd (forward_packet fmt strm pkt st)) = s_filename st"
  "s_streams (snd (forward_packet fmt strm pkt st)) = s_streams st"
  "segments_started (snd (forward_packet fmt strm pkt st)) = segments_started st"
  "0 \<le> fst (forward_packet fmt strm pkt st) \<Longrightarrow> streams (oc (snd (forward_packet fmt strm pkt st))) = streams (oc st)"
  "0 \<le> fst (forward_packet fmt strm pkt st) \<Longrightarrow> filename (oc (snd (forward_packet fmt strm pkt st))) = filename (oc st)"
  by (simp_all add: forward_packet_def packet_fail_frame Let_def)

lemma can_split_frame:
  assumes "can_split sg strm pkt = Inr (b, sg1)"
  shows "sg1 = sg\<lparr>next_valid_frame := next_valid_frame sg1,
                  next_valid_frame_index := next_valid_frame_index sg1\<rparr>"
  using assms
  by (auto simp: can_split_def advance_cursor_def Let_def
           split: if_splits sum.splits option.splits)

lemma can_split_keeps:
  assumes "can_split sg strm pkt = Inr (b, sg1)"
  shows "number sg1 = number sg" "wrap sg1 = wrap sg" "frame_count sg1 = frame_count sg"
    "nb_valid_frames sg1 = nb_valid_frames sg" "valid_frames sg1 = valid_frames sg"
  using assms
  by (auto simp: can_split_def advance_cursor_def Let_def
           split: if_splits sum.splits option.splits)

lemma print_list_frame [simp]:
  "seg (print_list l st) = seg st" "s_filename (print_list l st) = s_filename st"
  "s_streams (print_list l st) = s_streams st" "oc (print_list l st) = oc st"
  "playlist (print_list l st) = playlist st @ [filename (oc st)]"
  "segments_started (print_list l st) = segments_started st"
  by (simp_all add: print_list_def)

lemma open_list_frame [simp]:
  "seg (snd (open_list e l st)) = seg st" "s_filename (snd (open_list e l st)) = s_filename st"
  "s_streams (snd (open_list e l st)) = s_streams st" "oc (snd (open_list e l st)) = oc st"
  "segments_started (snd (open_list e l st)) = segments_started st"
  "playlist (snd (open_list e l st)) = (if fst (open_list e l st) < 0 then playlist st else [])"
  by (simp_all add: open_list_def Let_def)

text \<open>What a split leaves of the context: only the counter and the frame count change.\<close>

lemma split_segment_seg:
  "\<exists>n f. seg (snd (split_segment e fmt strm pkt st)) = (seg st)\<lparr>number := n, frame_count := f\<rparr>"
proof -
  have a: "\<And>sg::SegmentContext. sg = sg\<lparr>number := number sg, frame_count := frame_count sg\<rparr>"
    by simp
  have b: "\<And>(sg::SegmentContext) n. sg\<lparr>number := n\<rparr> = sg\<lparr>number := n, frame_count := frame_count sg\<rparr>"
    by simp
  show ?thesis
    unfolding split_segment_def Let_def
    by (auto simp: packet_fail_frame forward_packet_frame segment_end_frame segment_start_frame
             split: option.splits intro: a b exI)
qed

lemma seg_write_packet_cases:
  assumes "seg_write_packet e st pkt = Inr (r, st1)"
  obtains fmt strm b sg1 where
    "av_guess_format e = Some fmt"
    "0 \<le> stream_index pkt" "nat (stream_index pkt) < length (streams (oc st))"
    "strm = streams (oc st) ! nat (stream_index pkt)"
    "can_split (seg st) strm pkt = Inr (b, sg1)"
    "(r, st1) = (if b then split_segment e fmt strm pkt (st\<lparr>seg := sg1\<rparr>)
                 else forward_packet fmt strm pkt (st\<lparr>seg := sg1\<rparr>))"
  using assms
  by (auto simp: seg_write_packet_def Let_def split: option.splits if_splits sum.splits)

lemma seg_write_packet_seg:
  assumes "seg_write_packet e st pkt = Inr (r, st1)"
  shows "\<exists>n f v i. seg st1 = (seg st)\<lparr>number := n, frame_count := f, next_valid_frame := v,
                                        next_valid_frame_index := i\<rparr>"
proof -
  from assms obtain fmt strm b sg1 where
    cs: "can_split (seg st) strm pkt = Inr (b, sg1)"
    and res: "(r, st1) = (if b then split_segment e fmt strm pkt (st\<lparr>seg := sg1\<rparr>)
                 else forward_packet fmt strm pkt (st\<lparr>seg := sg1\<rparr>))"
    by (rule seg_write_packet_cases)
  from can_split_frame [OF cs] obtain v i where
    sg1: "sg1 = (seg st)\<lparr>next_valid_frame := v, next_valid_frame_index := i\<rparr>"
    by blast
  show ?thesis
  proof (cases b)
    case True
    obtain n f where "seg (snd (split_segment e fmt strm pkt (st\<lparr>seg := sg1\<rparr>)))
        = sg1\<lparr>number := n, frame_count := f\<rparr>"
      using split_segment_seg [of e fmt strm pkt "st\<lparr>seg := sg1\<rparr>"] by auto
    moreover have "st1 = snd (split_segment e fmt strm pkt (st\<lparr>seg := sg1\<rparr>))"
      using res True by (metis snd_conv)
    ultimately have "seg st1 = (seg st)\<lparr>number := n, frame_count := f, next_valid_frame := v,
                                        next_valid_frame_index := i\<rparr>"
      by (simp add: sg1)
    then show ?thesis by blast
  next
    case False
    have "st1 = snd (forward_packet fmt strm pkt (st\<lparr>seg := sg1\<rparr>))"
      using res False by (metis snd_conv)
    then have "seg st1 = (seg st)\<lparr>number := number (seg st),
        frame_count := frame_count (seg st) + (if codec_type strm = AVMEDIA_TYPE_VIDEO then 1 else 0),
        next_valid_frame := v, next_valid_frame_index := i\<rparr>"
      by (simp add: forward_packet_frame sg1)
    then show ?thesis by blast
  qed
qed

lemma seg_write_packet_keeps:
  assumes "seg_write_packet e st pkt = Inr (r, st1)"
  shows "has_video (seg st1) = has_video (seg st)" "wrap (seg st1) = wrap (seg st)"
    "size_seg (seg st1) = size_seg (seg st)" "list_seg (seg st1) = list_seg (seg st)"
    "recording_time (seg st1) = recording_time (seg st)"
  using seg_write_packet_seg [OF assms] by auto

lemma header_fail_frame:
  "fst (header_fail r st) = r"
  "seg (snd (header_fail r st)) = seg st"
  "segments_started (snd (header_fail r st)) = segments_started st"
  "snd (header_fail 0 st) = st"
  by (simp_all add: header_fail_def Let_def split: option.splits)

lemma header_open_first_keeps:
  "has_video (seg (snd (header_open_first e st))) = has_video (seg st)
     + int (length (filter (\<lambda>x. codec_type x = AVMEDIA_TYPE_VIDEO) (s_streams st)))"
  "wrap (seg (snd (header_open_first e st))) = wrap (seg st)"
  by (simp_all add: header_open_first_def header_fail_frame Let_def split: option.splits)

lemma header_open_first_ok:
  assumes "header_open_first e st = (0, st1)"
  shows "number (seg st1) = number (seg st) + 1"
    and "segments_started st1 = segments_started st + 1"
proof -
  have "fst (header_open_first e st) = 0" and s: "st1 = snd (header_open_first e st)"
    using assms by simp_all
  then have "number (seg (snd (header_open_first e st))) = number (seg st) + 1
      \<and> segments_started (snd (header_open_first e st)) = segments_started st + 1"
    by (auto simp: header_open_first_def header_fail_frame Let_def AVERROR_EINVAL_def
          AVERROR_MUXER_NOT_FOUND_def split: option.splits if_splits)
  then show "number (seg st1) = number (seg st) + 1"
    and "segments_started st1 = segments_started st + 1"
    using s by simp_all
qed

lemma header_valid_frames_keeps:
  assumes "header_valid_frames e st = Inr (r, st1)"
  shows "number (seg st1) = number (seg st)" "wrap (seg st1) = wrap (seg st)"
    "has_video (seg st1) = has_video (seg st)" "s_streams st1 = s_streams st"
    "events st1 = events st"
  using assms
  by (auto simp: header_valid_frames_def init_cursor_def Let_def
           split: option.splits sum.splits if_splits prod.splits)

lemma seg_write_header_unfold:
  "seg_write_header e st0 =
     (if \<not> avformat_alloc_context e (events st0) then
        Inr (AVERROR_ENOMEM,
             st0\<lparr>seg := (seg st0)\<lparr>number := 0, nb_valid_frames := 0, frame_count := 0\<rparr>\<rparr>)
      else if fst (header_list e st0) < 0
      then Inr (header_fail (fst (header_list e st0)) (snd (header_list e st0)))
      else (case header_valid_frames e (snd (header_list e st0)) of
              Inl f \<Rightarrow> Inl f
            | Inr (ret, st2) \<Rightarrow>
                if ret < 0 then Inr (ret, st2) else Inr (header_open_first e st2)))"
  unfolding seg_write_header_def header_list_def Let_def by simp

lemma header_list_frame:
  "number (seg (snd (header_list e st0))) = 0"
  "wrap (seg (snd (header_list e st0))) = wrap (seg st0)"
  "has_video (seg (snd (header_list e st0))) = has_video (seg st0)"
  "s_streams (snd (header_list e st0)) = s_streams st0"
  "segments_started (snd (header_list e st0)) = segments_started st0"
  by (simp_all add: header_list_def Let_def split: option.splits)

lemma seg_write_header_ok:
  assumes "seg_write_header e st0 = Inr (0, st)"
  shows "number (seg st) = 1"
    and "segments_started st = segments_started st0 + 1"
    and "wrap (seg st) = wrap (seg st0)"
    and "has_video (seg st) = has_video (seg st0)
           + int (length (filter (\<lambda>x. codec_type x = AVMEDIA_TYPE_VIDEO) (s_streams st0)))"
proof -
  from assms obtain r st2 where
    vf: "header_valid_frames e (snd (header_list e st0)) = Inr (r, st2)"
    and first: "header_open_first e st2 = (0, st)"
    by (auto simp: seg_write_header_unfold header_fail_frame AVERROR_ENOMEM_def
             split: if_splits sum.splits dest: arg_cong [where f = fst])
  note k = header_valid_frames_keeps [OF vf]
  have st: "st = snd (header_open_first e st2)"
    using first by simp
  show "number (seg st) = 1"
    using header_open_first_ok(1) [OF first] k(1) by (simp add: header_list_frame)
  show "segments_started st = segments_started st0 + 1"
    using header_open_first_ok(2) [OF first] k(5)
    by (simp add: segments_started_def header_list_frame [unfolded segments_started_def])
  show "wrap (seg st) = wrap (seg st0)"
    using k(2) by (simp add: st header_open_first_keeps header_list_frame)
  show "has_video (seg st) = has_video (seg st0)
           + int (length (filter (\<lambda>x. codec_type x = AVMEDIA_TYPE_VIDEO) (s_streams st0)))"
    using k(3,4) by (simp add: st header_open_first_keeps header_list_frame)
qed

lemma session_of_keeps:
  assumes "session_of e st0 st"
  shows "wrap (seg st) = wrap (seg st0)"
    and "has_video (seg st) = has_video (seg st0)
           + int (length (filter (\<lambda>x. codec_type x = AVMEDIA_TYPE_VIDEO) (s_streams st0)))"
  using assms
  by (induction rule: session_of.induct)
     (simp_all add: seg_write_header_ok seg_write_packet_keeps)

lemma split_segment_counter:
  assumes w: "wrap (seg st) = 0" and n: "number (seg st) = segments_started st"
    and r: "0 \<le> fst (split_segment e fmt strm pkt st)"
  shows "number (seg (snd (split_segment e fmt strm pkt st)))
           = segments_started (snd (split_segment e fmt strm pkt st))"
proof (cases "fst (segment_end fmt st) = 0")
  case False
  then have "split_segment e fmt strm pkt st
      = packet_fail (fst (segment_end fmt st)) (snd (segment_end fmt st))"
    by (simp add: split_segment_def Let_def)
  then show ?thesis
    using n by (simp add: packet_fail_frame segment_end_frame)
next
  case True
  define st1 where "st1 = snd (segment_end fmt st)"
  have st1: "wrap (seg st1) = 0" "number (seg st1) = segments_started st1"
    using w n by (simp_all add: st1_def segment_end_frame)
  show ?thesis
  proof (cases "fst (segment_start e fmt st1) = 0")
    case False
    then have "fst (segment_start e fmt st1) < 0"
      using segment_start_nonpos [of e fmt st1] by simp
    then have "fst (split_segment e fmt strm pkt st) < 0"
      using True by (simp add: split_segment_def Let_def st1_def packet_fail_frame)
    then show ?thesis using r by simp
  next
    case ok: True
    define st2 where "st2 = snd (segment_start e fmt st1)"
    have st2: "number (seg st2) = segments_started st2"
      using st1 segment_start_ok(1) [OF ok]
      by (simp add: st2_def segment_start_frame next_index_def)
    show ?thesis
      using True ok st2 unfolding split_segment_def Let_def st1_def [symmetric]
      by (auto simp: st2_def [symmetric] packet_fail_frame forward_packet_frame
               split: option.splits)
  qed
qed

lemma seg_write_packet_counter:
  assumes "seg_write_packet e st pkt = Inr (r, st1)" and "0 \<le> r"
    and "wrap (seg st) = 0" and "number (seg st) = segments_started st"
  shows "number (seg st1) = segments_started st1"
proof -
  from assms(1) obtain fmt strm b sg1 where
    cs: "can_split (seg st) strm pkt = Inr (b, sg1)"
    and res: "(r, st1) = (if b then split_segment e fmt strm pkt (st\<lparr>seg := sg1\<rparr>)
                 else forward_packet fmt strm pkt (st\<lparr>seg := sg1\<rparr>))"
    by (rule seg_write_packet_cases)
  have sg1: "wrap sg1 = wrap (seg st)" "number sg1 = number (seg st)"
    using can_split_keeps [OF cs] by simp_all
  show ?thesis
  proof (cases b)
    case True
    then have eq: "split_segment e fmt strm pkt (st\<lparr>seg := sg1\<rparr>) = (r, st1)"
      using res by simp
    show ?thesis
      using split_segment_counter [of "st\<lparr>seg := sg1\<rparr>" e fmt strm pkt] assms(2-4) sg1
      by (simp add: eq)
  next
    case False
    then have eq: "forward_packet fmt strm pkt (st\<lparr>seg := sg1\<rparr>) = (r, st1)"
      using res by simp
    have "st1 = snd (forward_packet fmt strm pkt (st\<lparr>seg := sg1\<rparr>))"
      by (simp add: eq)
    then show ?thesis
      using assms(4) sg1 by (simp add: forward_packet_frame)
  qed
qed

lemma session_of_counter:
  assumes "session_of e st0 st" and "events st0 = []" and "wrap (seg st0) = 0"
  shows "number (seg st) = segments_started st"
  using assms
proof (induction rule: session_of.induct)
  case (opened st)
  have "segments_started st0 = 0"
    using opened by (simp add: segments_started_def)
  then show ?case
    using seg_write_header_ok(1,2) [OF opened(1)] by simp
next
  case (packet st pkt ret st1)
  then show ?case
    using seg_write_packet_counter session_of_keeps(1) by metis
qed

subsection \<open>The time test\<close>

lemma av_compare_ts_nonneg:
  "(0 \<le> av_compare_ts ts tb e AV_TIME_BASE_Q) = (e * snd tb \<le> ts * fst tb * 1000000)"
  by (simp add: av_compare_ts_def AV_TIME_BASE_Q_def Let_def sgn_if algebra_simps)

subsection \<open>Sessions without a video stream\<close>

lemmas header_defs = seg_write_header_def header_list_def header_valid_frames_def
  header_open_first_def header_fail_def open_list_def print_list_def init_cursor_def
  parse_valid_frames_def array_read_def array_write_def log_ev_def

lemmas packet_defs = seg_write_packet_def can_split_def advance_cursor_def split_segment_def
  forward_packet_def packet_fail_def segment_start_def segment_end_def open_list_def
  print_list_def array_read_def log_ev_def av_compare_ts_def AV_TIME_BASE_Q_def
  AV_PKT_FLAG_KEY_def c_rem_def int64_wrap_def

lemmas setting_defs = plain_env_def plain_writer_def plain_session_def plain_seg_def
  video_stream_def audio_stream_def key_packet_def audio_packet_def digit_name_def






subsection \<open>The valid-frames cursor at the start\<close>

lemmas strtol_defs = strtol_def isspace_c_def isdigit_c_def digit_val_def LONG_MAX_def
  LONG_MIN_def

text \<open>
  C6, as the code has it. When a valid-frames string is configured and parsed with a
  result that is not negative, the cursor starts at index 1 if the first entry of the array
  is 0 and at index 0 otherwise, and \<^verbatim>\<open>next_valid_frame\<close> is the entry there.
\<close>

theorem cursor_starts:
  assumes "valid_frames_str (seg st) = Some str"
    and "header_valid_frames e st = Inr (ret, st1)" and "0 \<le> ret"
  shows "\<exists>a first. valid_frames (seg st1) = Some a \<and> array_read a 0 = Inr first
          \<and> next_valid_frame_index (seg st1) = (if first = 0 then 1 else 0)
          \<and> array_read a (next_valid_frame_index (seg st1)) = Inr (next_valid_frame (seg st1))
          \<and> nb_valid_frames (seg st1) = int (count_commas str) + 1"
  using assms
  by (auto simp: header_valid_frames_def init_cursor_def parse_valid_frames_def Let_def
           split: sum.splits option.splits if_splits prod.splits)

lemma zero_first_valid_frames:
  "header_valid_frames plain_env zero_first_session = Inr (0, zero_first_parsed)"
  by (simp add: header_defs strtol_defs setting_defs zero_first_session_def
        zero_first_parsed_def Let_def)

theorem cursor_starts_witness:
  "valid_frames_str (seg zero_first_session) = Some ''0,10,''
   \<and> header_valid_frames plain_env zero_first_session = Inr (0, zero_first_parsed)
   \<and> (0 :: int) \<le> 0
   \<and> (\<exists>a first. valid_frames (seg zero_first_parsed) = Some a \<and> array_read a 0 = Inr first
          \<and> next_valid_frame_index (seg zero_first_parsed) = (if first = 0 then 1 else 0)
          \<and> array_read a (next_valid_frame_index (seg zero_first_parsed))
               = Inr (next_valid_frame (seg zero_first_parsed))
          \<and> nb_valid_frames (seg zero_first_parsed) = int (count_commas ''0,10,'') + 1)
   \<and> valid_frames (seg zero_first_parsed) = Some [Some 0, Some 10]
   \<and> next_valid_frame_index (seg zero_first_parsed) = 1"
proof -
  have s: "valid_frames_str (seg zero_first_session) = Some ''0,10,''"
    by (simp add: zero_first_session_def setting_defs)
  have z: "(0 :: int) \<le> 0"
    by simp
  have v: "valid_frames (seg zero_first_parsed) = Some [Some 0, Some 10]"
       "next_valid_frame_index (seg zero_first_parsed) = 1"
    by (simp_all add: zero_first_parsed_def)
  show ?thesis
    using cursor_starts [OF s zero_first_valid_frames z] s zero_first_valid_frames v
    by simp
qed

text \<open>
  C6 as stated fails both ways: with \<^verbatim>\<open>"0,10,"\<close> the first value is 0 and the header leaves
  the cursor at index 1 (frame 10); with \<^verbatim>\<open>"5,10,"\<close> the first value is 5 and the cursor
  is at index 0.
\<close>

theorem cursor_index_counterexample:
  "seg_write_header plain_env zero_first_session
     = Inr (0, after_header plain_env zero_first_session)
   \<and> valid_frames (seg (after_header plain_env zero_first_session)) = Some [Some 0, Some 10]
   \<and> next_valid_frame_index (seg (after_header plain_env zero_first_session)) = 1
   \<and> next_valid_frame (seg (after_header plain_env zero_first_session)) = 10
   \<and> seg_write_header plain_env five_first_session
     = Inr (0, after_header plain_env five_first_session)
   \<and> valid_frames (seg (after_header plain_env five_first_session)) = Some [Some 5, Some 10]
   \<and> next_valid_frame_index (seg (after_header plain_env five_first_session)) = 0
   \<and> next_valid_frame (seg (after_header plain_env five_first_session)) = 5"
  by (simp add: after_header_def header_defs strtol_defs setting_defs zero_first_session_def
        five_first_session_def Let_def)






subsection \<open>Ending a segment\<close>

text \<open>
  C7. Whatever the writer's trailer function returns, and when there is none,
  \<^verbatim>\<open>segment_end\<close> closes the sink \<^verbatim>\<open>oc->pb\<close> and frees the writer's private state; its
  result is the trailer's result (0 when there is no trailer function). The events it adds
  are the trailer write (with the log entry when it failed), the close, the release of the
  options when the writer has a class, and the release of the private state.
\<close>

theorem segment_end_cleans_up:
  "fst (segment_end fmt st) = (case write_trailer fmt of None \<Rightarrow> 0 | Some f \<Rightarrow> f (events st))
   \<and> priv_data (oc (snd (segment_end fmt st))) = False
   \<and> (\<exists>before after. events (snd (segment_end fmt st))
          = events st @ before @ [AvioClose (pb (oc st))] @ after @ [FreePriv]
        \<and> before = (case write_trailer fmt of
                      None \<Rightarrow> []
                    | Some f \<Rightarrow> WriteTrailer (filename (oc st)) (f (events st))
                        # (if f (events st) < 0 then [AvLogError (filename (oc st))] else []))
        \<and> after = (if priv_class fmt then [OptFree] else []))"
  by (simp add: segment_end_def log_ev_def Let_def split: option.splits)

subsection \<open>A split: the old segment is ended before the new one is started\<close>

lemma segment_start_open_fails:
  assumes "av_get_frame_filename e (s_filename st) (next_index (seg st)) = Some fn"
    and "avio_open2 e (events st) fn < 0"
  shows "fst (segment_start e fmt st) = avio_open2 e (events st) fn"
    and "events (snd (segment_start e fmt st)) = events st @ [AvioOpen fn (avio_open2 e (events st) fn)]"
    and "list_seg (seg (snd (segment_start e fmt st))) = list_seg (seg st)"
  using assms by (auto simp add: segment_start_def next_index_def Let_def split: if_splits)

lemma prefix_log_ev: "prefix (events st) (events (log_ev ev st))"
  by simp

lemma segment_start_prefix: "prefix (events st) (events (snd (segment_start e fmt st)))"
  by (simp add: segment_start_def Let_def split: option.splits)

lemma packet_fail_prefix: "prefix (events st) (events (snd (packet_fail r st)))"
  by (simp add: packet_fail_def Let_def split: option.splits)

lemma forward_packet_prefix: "prefix (events st) (events (snd (forward_packet fmt strm pkt st)))"
  by (simp add: forward_packet_def packet_fail_def Let_def split: option.splits)

lemma open_list_prefix: "prefix (events st) (events (snd (open_list e l st)))"
  by (simp add: open_list_def Let_def)

lemma print_list_prefix: "prefix (events st) (events (print_list l st))"
  by (simp add: print_list_def)

lemma split_segment_prefix:
  "prefix (events (snd (segment_end fmt st))) (events (snd (split_segment e fmt strm pkt st)))"
proof -
  define st1 where "st1 = snd (segment_end fmt st)"
  define st2 where "st2 = snd (if fst (segment_end fmt st) = 0 then segment_start e fmt st1
                               else segment_end fmt st)"
  have p2: "prefix (events st1) (events st2)"
    by (simp add: st2_def segment_start_prefix st1_def)
  have A: "\<And>s. prefix (events st2) (events s)
      \<Longrightarrow> prefix (events st2) (events (snd (forward_packet fmt strm pkt s)))"
    using forward_packet_prefix prefix_order.trans by blast
  have B: "\<And>s r. prefix (events st2) (events s)
      \<Longrightarrow> prefix (events st2) (events (snd (packet_fail r s)))"
    using packet_fail_prefix prefix_order.trans by blast
  have C: "\<And>s l. prefix (events st2) (events s)
      \<Longrightarrow> prefix (events st2) (events (snd (open_list e l s)))"
    using open_list_prefix prefix_order.trans by blast
  have D: "\<And>s l. prefix (events st2) (events s)
      \<Longrightarrow> prefix (events st2) (events (print_list l s))"
    using print_list_prefix prefix_order.trans by blast
  have E: "\<And>s ev. prefix (events st2) (events s)
      \<Longrightarrow> prefix (events st2) (events (log_ev ev s))"
    using prefix_log_ev prefix_order.trans by blast
  have tail: "prefix (events st2) (events (snd (split_segment e fmt strm pkt st)))"
    unfolding split_segment_def Let_def st1_def [symmetric] st2_def [symmetric]
    by (auto split: option.splits intro!: A B C D E)
  show ?thesis
    using p2 tail by (auto simp: st1_def)
qed

lemma split_segment_events:
  "\<exists>rest. events (snd (split_segment e fmt strm pkt st)) = events (snd (segment_end fmt st)) @ rest"
  using split_segment_prefix [of fmt st e strm pkt] by (auto simp: prefix_def)

lemma segment_end_events:
  "events (snd (segment_end fmt st))
     = events st
       @ (case write_trailer fmt of
            None \<Rightarrow> []
          | Some f \<Rightarrow> WriteTrailer (filename (oc st)) (f (events st))
              # (if f (events st) < 0 then [AvLogError (filename (oc st))] else []))
       @ [AvioClose (pb (oc st))]
       @ (if priv_class fmt then [OptFree] else [])
       @ [FreePriv]"
  by (simp add: segment_end_def log_ev_def Let_def split: option.splits)

lemma segment_end_result:
  "fst (segment_end fmt st) = (case write_trailer fmt of None \<Rightarrow> 0 | Some f \<Rightarrow> f (events st))"
  by (simp add: segment_end_def Let_def)

lemma segment_start_events:
  assumes "av_get_frame_filename e (s_filename st) (next_index (seg st)) = Some fn"
  shows "events (snd (segment_start e fmt st))
     = events st @ AvioOpen fn (avio_open2 e (events st) fn)
         # (if avio_open2 e (events st) fn < 0 then []
            else if \<not> priv_data (oc st) \<and> 0 < priv_data_size fmt
                    \<and> \<not> av_mallocz e (events st @ [AvioOpen fn (avio_open2 e (events st) fn)])
            then [AvioClose (Some fn)]
            else WriteHeader fn
                   (write_header fmt (events st @ [AvioOpen fn (avio_open2 e (events st) fn)]))
                 # (if write_header fmt
                         (events st @ [AvioOpen fn (avio_open2 e (events st) fn)]) < 0
                    then [AvLogError fn, AvioClose (Some fn), FreePriv] else []))"
  using assms
  by (auto simp add: segment_start_def next_index_def Let_def split: if_splits)

lemma segment_start_success:
  assumes "fst (segment_start e fmt st) = 0"
  shows "\<exists>fn. av_get_frame_filename e (s_filename st) (next_index (seg st)) = Some fn
      \<and> 0 \<le> avio_open2 e (events st) fn
      \<and> 0 \<le> write_header fmt (events st @ [AvioOpen fn (avio_open2 e (events st) fn)])
      \<and> events (snd (segment_start e fmt st))
          = events st @ [AvioOpen fn (avio_open2 e (events st) fn),
              WriteHeader fn
                (write_header fmt (events st @ [AvioOpen fn (avio_open2 e (events st) fn)]))]
      \<and> filename (oc (snd (segment_start e fmt st))) = fn
      \<and> pb (oc (snd (segment_start e fmt st))) = Some fn"
  using assms
  by (auto simp add: segment_start_def next_index_def Let_def AVERROR_EINVAL_def
        AVERROR_ENOMEM_def split: if_splits option.splits)

lemma segment_start_no_name:
  assumes "av_get_frame_filename e (s_filename st) (next_index (seg st)) = None"
  shows "fst (segment_start e fmt st) = AVERROR_EINVAL"
    and "events (snd (segment_start e fmt st)) = events st"
    and "list_seg (seg (snd (segment_start e fmt st))) = list_seg (seg st)"
  using assms by (auto simp add: segment_start_def next_index_def Let_def split: if_splits)

lemma split_segment_after_start:
  assumes "fst (segment_end fmt st) = 0"
  shows "prefix (events (snd (segment_start e fmt (snd (segment_end fmt st)))))
           (events (snd (split_segment e fmt strm pkt st)))"
proof -
  define st2 where "st2 = snd (segment_start e fmt (snd (segment_end fmt st)))"
  have A: "\<And>s. prefix (events st2) (events s)
      \<Longrightarrow> prefix (events st2) (events (snd (forward_packet fmt strm pkt s)))"
    using forward_packet_prefix prefix_order.trans by blast
  have B: "\<And>s r. prefix (events st2) (events s)
      \<Longrightarrow> prefix (events st2) (events (snd (packet_fail r s)))"
    using packet_fail_prefix prefix_order.trans by blast
  have C: "\<And>s l. prefix (events st2) (events s)
      \<Longrightarrow> prefix (events st2) (events (snd (open_list e l s)))"
    using open_list_prefix prefix_order.trans by blast
  have D: "\<And>s l. prefix (events st2) (events s)
      \<Longrightarrow> prefix (events st2) (events (print_list l s))"
    using print_list_prefix prefix_order.trans by blast
  have E: "\<And>s ev. prefix (events st2) (events s)
      \<Longrightarrow> prefix (events st2) (events (log_ev ev s))"
    using prefix_log_ev prefix_order.trans by blast
  have R: "prefix (events st2) (events (snd (segment_start e fmt (snd (segment_end fmt st)))))"
    by (simp add: st2_def)
  have "prefix (events st2) (events (snd (split_segment e fmt strm pkt st)))"
    using assms unfolding split_segment_def Let_def
    by (auto split: option.splits intro!: A B C D E R)
  then show ?thesis
    by (simp add: st2_def)
qed

lemma split_segment_end_failed:
  assumes "fst (segment_end fmt st) \<noteq> 0"
  shows "split_segment e fmt strm pkt st
           = packet_fail (fst (segment_end fmt st)) (snd (segment_end fmt st))"
  using assms by (simp add: split_segment_def Let_def)

lemma split_segment_start_failed:
  assumes "fst (segment_end fmt st) = 0"
    and "fst (segment_start e fmt (snd (segment_end fmt st))) \<noteq> 0"
  shows "split_segment e fmt strm pkt st
           = packet_fail (fst (segment_start e fmt (snd (segment_end fmt st))))
               (snd (segment_start e fmt (snd (segment_end fmt st))))"
  using assms by (simp add: split_segment_def Let_def)

lemma packet_fail_events:
  "events (snd (packet_fail r st))
     = events st @ (if r < 0 then (case list_seg (seg st) of None \<Rightarrow> [] | Some l \<Rightarrow> [AvioClose (Some l)])
                       @ [FreeContext] else [])"
  by (simp add: packet_fail_def Let_def split: option.splits)

text \<open>
  C8. When \<^verbatim>\<open>can_split\<close> is set, \<^verbatim>\<open>segment_end\<close> runs first: \<open>st1\<close> is the session as
  it leaves it, with the trailer written (when the writer has a trailer function), the
  sink \<^verbatim>\<open>oc->pb\<close> closed and the private state released, and every other event of the
  packet, \<open>rest\<close>, comes after these. If \<^verbatim>\<open>segment_end\<close> returned an error, the packet's
  result is that error and the next segment is not started: nothing follows but the
  cleanup of the label \<^verbatim>\<open>fail\<close>. If it returned 0 (the trailer write, if any, returned 0),
  \<^verbatim>\<open>segment_start\<close> runs on \<open>st1\<close>. Without a name for the new segment the result is
  \<^verbatim>\<open>AVERROR(EINVAL)\<close>. With the name \<open>fn\<close>, the first thing after the end of the old
  segment is \<^verbatim>\<open>avio_open2\<close> on \<open>fn\<close>; if that open fails the packet's result is its error
  code and nothing follows the failed open but the cleanup of \<^verbatim>\<open>fail\<close>; and if
  \<^verbatim>\<open>segment_start\<close> succeeds the open and the header write both succeeded and the header
  of \<open>fn\<close> is written right after the open.
\<close>

theorem split_ends_before_start:
  assumes fmt: "av_guess_format e = Some fmt"
    and idx: "0 \<le> stream_index pkt" "nat (stream_index pkt) < length (streams (oc st))"
    and cs: "can_split (seg st) (streams (oc st) ! nat (stream_index pkt)) pkt = Inr (True, sg1)"
    and ended: "st1 = snd (segment_end fmt (st\<lparr>seg := sg1\<rparr>))"
    and cleanup: "cleanup = (case list_seg sg1 of None \<Rightarrow> [] | Some l \<Rightarrow> [AvioClose (Some l)])
                     @ [FreeContext]"
  shows "\<exists>r st2 rest. seg_write_packet e st pkt = Inr (r, st2)
          \<and> events st2 = events st1 @ rest
          \<and> events st1 = events st
               @ (case write_trailer fmt of
                    None \<Rightarrow> []
                  | Some f \<Rightarrow> WriteTrailer (filename (oc st)) (f (events st))
                      # (if f (events st) < 0 then [AvLogError (filename (oc st))] else []))
               @ [AvioClose (pb (oc st))]
               @ (if priv_class fmt then [OptFree] else [])
               @ [FreePriv]
          \<and> (fst (segment_end fmt (st\<lparr>seg := sg1\<rparr>)) \<noteq> 0
              \<longrightarrow> r = fst (segment_end fmt (st\<lparr>seg := sg1\<rparr>))
                  \<and> rest = (if r < 0 then cleanup else []))
          \<and> (fst (segment_end fmt (st\<lparr>seg := sg1\<rparr>)) = 0
              \<longrightarrow> (case write_trailer fmt of None \<Rightarrow> True | Some f \<Rightarrow> f (events st) = 0)
                  \<and> (case av_get_frame_filename e (s_filename st) (next_index sg1) of
                       None \<Rightarrow> r = AVERROR_EINVAL \<and> rest = cleanup
                     | Some fn \<Rightarrow>
                         (\<exists>more. rest = AvioOpen fn (avio_open2 e (events st1) fn) # more)
                         \<and> (avio_open2 e (events st1) fn < 0
                            \<longrightarrow> r = avio_open2 e (events st1) fn
                                \<and> rest = AvioOpen fn r # cleanup)
                         \<and> (fst (segment_start e fmt st1) = 0
                            \<longrightarrow> 0 \<le> avio_open2 e (events st1) fn
                                \<and> 0 \<le> write_header fmt
                                        (events st1 @ [AvioOpen fn (avio_open2 e (events st1) fn)])
                                \<and> (\<exists>more. rest
                                      = AvioOpen fn (avio_open2 e (events st1) fn)
                                        # WriteHeader fn (write_header fmt
                                            (events st1
                                             @ [AvioOpen fn (avio_open2 e (events st1) fn)]))
                                        # more))))"
proof -
  define strm where "strm = streams (oc st) ! nat (stream_index pkt)"
  define st' where "st' = st\<lparr>seg := sg1\<rparr>"
  define res where "res = split_segment e fmt strm pkt st'"
  have swp: "seg_write_packet e st pkt = Inr (fst res, snd res)"
    using fmt idx cs by (simp add: seg_write_packet_def strm_def st'_def res_def Let_def)
  have st1: "st1 = snd (segment_end fmt st')"
    by (simp add: ended st'_def)
  obtain rest where rest: "events (snd res) = events st1 @ rest"
    using split_segment_events [of e fmt strm pkt st'] by (auto simp: st1 res_def)
  have l1: "list_seg (seg st1) = list_seg sg1"
    by (simp add: st1 st'_def segment_end_frame)
  have f1: "s_filename st1 = s_filename st" "next_index (seg st1) = next_index sg1"
    by (simp_all add: st1 st'_def segment_end_frame)
  have ev1: "events st1 = events st
               @ (case write_trailer fmt of
                    None \<Rightarrow> []
                  | Some f \<Rightarrow> WriteTrailer (filename (oc st)) (f (events st))
                      # (if f (events st) < 0 then [AvLogError (filename (oc st))] else []))
               @ [AvioClose (pb (oc st))]
               @ (if priv_class fmt then [OptFree] else [])
               @ [FreePriv]"
    using segment_end_events [of fmt st'] by (simp add: st1 st'_def split: option.splits)
  have endfail: "fst res = fst (segment_end fmt st') \<and> rest = (if fst res < 0 then cleanup else [])"
    if "fst (segment_end fmt st') \<noteq> 0"
  proof -
    have "res = packet_fail (fst (segment_end fmt st')) st1"
      using split_segment_end_failed [OF that] by (simp add: res_def st1)
    then have "fst res = fst (segment_end fmt st')"
      and "events (snd res) = events st1 @ (if fst (segment_end fmt st') < 0 then cleanup else [])"
      by (simp_all add: packet_fail_frame packet_fail_events l1 cleanup)
    then show ?thesis
      using rest by simp
  qed
  have trailer: "case write_trailer fmt of None \<Rightarrow> True | Some f \<Rightarrow> f (events st) = 0"
    if "fst (segment_end fmt st') = 0"
    using that segment_end_result [of fmt st'] by (simp add: st'_def split: option.splits)
  have noname: "fst res = AVERROR_EINVAL \<and> rest = cleanup"
    if e0: "fst (segment_end fmt st') = 0"
      and nm: "av_get_frame_filename e (s_filename st) (next_index sg1) = None"
  proof -
    have nm1: "av_get_frame_filename e (s_filename st1) (next_index (seg st1)) = None"
      using nm by (simp add: f1)
    note ss = segment_start_no_name [OF nm1, of fmt]
    have "res = packet_fail (fst (segment_start e fmt st1)) (snd (segment_start e fmt st1))"
      using split_segment_start_failed [of fmt st' e strm pkt] e0 ss(1)
      by (simp add: res_def st1 AVERROR_EINVAL_def)
    then have "fst res = AVERROR_EINVAL" and "events (snd res) = events st1 @ cleanup"
      using ss by (simp_all add: packet_fail_frame packet_fail_events l1 cleanup AVERROR_EINVAL_def)
    then show ?thesis
      using rest by simp
  qed
  have named: "(\<exists>more. rest = AvioOpen fn (avio_open2 e (events st1) fn) # more)
      \<and> (avio_open2 e (events st1) fn < 0
          \<longrightarrow> fst res = avio_open2 e (events st1) fn \<and> rest = AvioOpen fn (fst res) # cleanup)
      \<and> (fst (segment_start e fmt st1) = 0
          \<longrightarrow> 0 \<le> avio_open2 e (events st1) fn
              \<and> 0 \<le> write_header fmt (events st1 @ [AvioOpen fn (avio_open2 e (events st1) fn)])
              \<and> (\<exists>more. rest = AvioOpen fn (avio_open2 e (events st1) fn)
                    # WriteHeader fn (write_header fmt
                        (events st1 @ [AvioOpen fn (avio_open2 e (events st1) fn)]))
                    # more))"
    if e0: "fst (segment_end fmt st') = 0"
      and nm: "av_get_frame_filename e (s_filename st) (next_index sg1) = Some fn" for fn
  proof -
    have nm1: "av_get_frame_filename e (s_filename st1) (next_index (seg st1)) = Some fn"
      using nm by (simp add: f1)
    obtain more2 where more2: "events (snd res) = events (snd (segment_start e fmt st1)) @ more2"
      using split_segment_after_start [OF e0, of e strm pkt]
      by (auto simp: prefix_def res_def st1)
    have first: "\<exists>more. rest = AvioOpen fn (avio_open2 e (events st1) fn) # more"
      using more2 rest segment_start_events [OF nm1, of fmt] by auto
    have failed: "fst res = avio_open2 e (events st1) fn \<and> rest = AvioOpen fn (fst res) # cleanup"
      if neg: "avio_open2 e (events st1) fn < 0"
    proof -
      note ss = segment_start_open_fails [OF nm1 neg, of fmt]
      have "res = packet_fail (fst (segment_start e fmt st1)) (snd (segment_start e fmt st1))"
        using split_segment_start_failed [of fmt st' e strm pkt] e0 ss(1) neg
        by (simp add: res_def st1)
      then have "fst res = avio_open2 e (events st1) fn"
        and "events (snd res) = events st1 @ AvioOpen fn (avio_open2 e (events st1) fn) # cleanup"
        using ss neg by (simp_all add: packet_fail_frame packet_fail_events l1 cleanup)
      then show ?thesis
        using rest by simp
    qed
    have started: "0 \<le> avio_open2 e (events st1) fn
        \<and> 0 \<le> write_header fmt (events st1 @ [AvioOpen fn (avio_open2 e (events st1) fn)])
        \<and> (\<exists>more. rest = AvioOpen fn (avio_open2 e (events st1) fn)
              # WriteHeader fn (write_header fmt
                  (events st1 @ [AvioOpen fn (avio_open2 e (events st1) fn)]))
              # more)"
      if ok: "fst (segment_start e fmt st1) = 0"
      using segment_start_success [OF ok] nm1 more2 rest by auto
    show ?thesis
      using first failed started by blast
  qed
  have A: "fst (segment_end fmt (st\<lparr>seg := sg1\<rparr>)) \<noteq> 0
              \<longrightarrow> fst res = fst (segment_end fmt (st\<lparr>seg := sg1\<rparr>))
                  \<and> rest = (if fst res < 0 then cleanup else [])"
    using endfail by (simp add: st'_def)
  have B: "fst (segment_end fmt (st\<lparr>seg := sg1\<rparr>)) = 0
              \<longrightarrow> (case write_trailer fmt of None \<Rightarrow> True | Some f \<Rightarrow> f (events st) = 0)
                  \<and> (case av_get_frame_filename e (s_filename st) (next_index sg1) of
                       None \<Rightarrow> fst res = AVERROR_EINVAL \<and> rest = cleanup
                     | Some fn \<Rightarrow>
                         (\<exists>more. rest = AvioOpen fn (avio_open2 e (events st1) fn) # more)
                         \<and> (avio_open2 e (events st1) fn < 0
                            \<longrightarrow> fst res = avio_open2 e (events st1) fn
                                \<and> rest = AvioOpen fn (fst res) # cleanup)
                         \<and> (fst (segment_start e fmt st1) = 0
                            \<longrightarrow> 0 \<le> avio_open2 e (events st1) fn
                                \<and> 0 \<le> write_header fmt
                                        (events st1 @ [AvioOpen fn (avio_open2 e (events st1) fn)])
                                \<and> (\<exists>more. rest
                                      = AvioOpen fn (avio_open2 e (events st1) fn)
                                        # WriteHeader fn (write_header fmt
                                            (events st1
                                             @ [AvioOpen fn (avio_open2 e (events st1) fn)]))
                                        # more)))"
  proof (intro impI conjI)
    assume e0: "fst (segment_end fmt (st\<lparr>seg := sg1\<rparr>)) = 0"
    then have e0': "fst (segment_end fmt st') = 0"
      by (simp add: st'_def)
    show "case write_trailer fmt of None \<Rightarrow> True | Some f \<Rightarrow> f (events st) = 0"
      by (rule trailer [OF e0'])
    show "case av_get_frame_filename e (s_filename st) (next_index sg1) of
            None \<Rightarrow> fst res = AVERROR_EINVAL \<and> rest = cleanup
          | Some fn \<Rightarrow>
              (\<exists>more. rest = AvioOpen fn (avio_open2 e (events st1) fn) # more)
              \<and> (avio_open2 e (events st1) fn < 0
                 \<longrightarrow> fst res = avio_open2 e (events st1) fn
                     \<and> rest = AvioOpen fn (fst res) # cleanup)
              \<and> (fst (segment_start e fmt st1) = 0
                 \<longrightarrow> 0 \<le> avio_open2 e (events st1) fn
                     \<and> 0 \<le> write_header fmt
                             (events st1 @ [AvioOpen fn (avio_open2 e (events st1) fn)])
                     \<and> (\<exists>more. rest
                           = AvioOpen fn (avio_open2 e (events st1) fn)
                             # WriteHeader fn (write_header fmt
                                 (events st1
                                  @ [AvioOpen fn (avio_open2 e (events st1) fn)]))
                             # more))"
    proof (cases "av_get_frame_filename e (s_filename st) (next_index sg1)")
      case None
      then show ?thesis
        using noname [OF e0'] by simp
    next
      case (Some fn)
      then show ?thesis
        using named [OF e0' Some] by simp
    qed
  qed
  show ?thesis
    using swp rest ev1 A B by blast
qed

lemma plain_header:
  "seg_write_header second_open_fails plain_session = Inr (0, plain_opened)"
  by (simp add: header_defs setting_defs second_open_fails_def plain_opened_def Let_def)

lemma plain_header_ok:
  "seg_write_header plain_env plain_session = Inr (0, plain_opened)"
  by (simp add: header_defs setting_defs plain_opened_def Let_def)

lemma plain_header_trailer:
  "seg_write_header trailer_fails plain_session = Inr (0, plain_opened)"
  by (simp add: header_defs setting_defs trailer_fails_def plain_opened_def Let_def)

theorem split_ends_before_start_witness:
  "seg_write_header second_open_fails plain_session = Inr (0, plain_opened)
   \<and> seg_write_header plain_env plain_session = Inr (0, plain_opened)
   \<and> seg_write_header trailer_fails plain_session = Inr (0, plain_opened)
   \<and> av_guess_format second_open_fails = Some plain_writer
   \<and> av_guess_format plain_env = Some plain_writer
   \<and> av_guess_format trailer_fails = Some (plain_writer\<lparr>write_trailer := Some (\<lambda>evs. - 5)\<rparr>)
   \<and> 0 \<le> stream_index (key_packet 50)
   \<and> nat (stream_index (key_packet 50)) < length (streams (oc plain_opened))
   \<and> can_split (seg plain_opened)
         (streams (oc plain_opened) ! nat (stream_index (key_packet 50))) (key_packet 50)
       = Inr (True, seg plain_opened)
   \<and> fst (segment_end plain_writer (plain_opened\<lparr>seg := seg plain_opened\<rparr>)) = 0
   \<and> events (snd (segment_end plain_writer (plain_opened\<lparr>seg := seg plain_opened\<rparr>)))
       = [AvioOpen ''out0'' 0, WriteHeader ''out0'' 0, WriteTrailer ''out0'' 0,
          AvioClose (Some ''out0''), OptFree, FreePriv]
   \<and> av_get_frame_filename plain_env (s_filename plain_opened) (next_index (seg plain_opened))
       = Some ''out1''
   \<and> seg_write_packet second_open_fails plain_opened (key_packet 50)
       = Inr (- 5, after_packets second_open_fails plain_opened [key_packet 50])
   \<and> events (after_packets second_open_fails plain_opened [key_packet 50])
       = [AvioOpen ''out0'' 0, WriteHeader ''out0'' 0, WriteTrailer ''out0'' 0,
          AvioClose (Some ''out0''), OptFree, FreePriv, AvioOpen ''out1'' (- 5), FreeContext]
   \<and> fst (segment_start plain_env plain_writer
          (snd (segment_end plain_writer (plain_opened\<lparr>seg := seg plain_opened\<rparr>)))) = 0
   \<and> seg_write_packet plain_env plain_opened (key_packet 50)
       = Inr (0, after_packets plain_env plain_opened [key_packet 50])
   \<and> events (after_packets plain_env plain_opened [key_packet 50])
       = [AvioOpen ''out0'' 0, WriteHeader ''out0'' 0, WriteTrailer ''out0'' 0,
          AvioClose (Some ''out0''), OptFree, FreePriv, AvioOpen ''out1'' 0,
          WriteHeader ''out1'' 0, WritePacket ''out1'' 0]
   \<and> fst (segment_end (plain_writer\<lparr>write_trailer := Some (\<lambda>evs. - 5)\<rparr>)
          (plain_opened\<lparr>seg := seg plain_opened\<rparr>)) = - 5
   \<and> seg_write_packet trailer_fails plain_opened (key_packet 50)
       = Inr (- 5, after_packets trailer_fails plain_opened [key_packet 50])
   \<and> events (after_packets trailer_fails plain_opened [key_packet 50])
       = [AvioOpen ''out0'' 0, WriteHeader ''out0'' 0, WriteTrailer ''out0'' (- 5),
          AvLogError ''out0'', AvioClose (Some ''out0''), OptFree, FreePriv, FreeContext]"
proof -
  have f: "av_guess_format second_open_fails = Some plain_writer"
    "av_guess_format plain_env = Some plain_writer"
    "av_guess_format trailer_fails = Some (plain_writer\<lparr>write_trailer := Some (\<lambda>evs. - 5)\<rparr>)"
    by (simp_all add: second_open_fails_def trailer_fails_def plain_env_def)
  have i: "0 \<le> stream_index (key_packet 50)"
    "nat (stream_index (key_packet 50)) < length (streams (oc plain_opened))"
    by (simp_all add: key_packet_def plain_opened_def)
  have c: "can_split (seg plain_opened)
         (streams (oc plain_opened) ! nat (stream_index (key_packet 50))) (key_packet 50)
       = Inr (True, seg plain_opened)"
    by (simp add: plain_opened_def packet_defs setting_defs Let_def)
  have e: "fst (segment_end plain_writer (plain_opened\<lparr>seg := seg plain_opened\<rparr>)) = 0"
    "events (snd (segment_end plain_writer (plain_opened\<lparr>seg := seg plain_opened\<rparr>)))
       = [AvioOpen ''out0'' 0, WriteHeader ''out0'' 0, WriteTrailer ''out0'' 0,
          AvioClose (Some ''out0''), OptFree, FreePriv]"
    "fst (segment_end (plain_writer\<lparr>write_trailer := Some (\<lambda>evs. - 5)\<rparr>)
          (plain_opened\<lparr>seg := seg plain_opened\<rparr>)) = - 5"
    by (simp_all add: plain_opened_def packet_defs setting_defs Let_def)
  have n: "av_get_frame_filename plain_env (s_filename plain_opened)
        (next_index (seg plain_opened)) = Some ''out1''"
    by (simp add: plain_opened_def next_index_def c_rem_def setting_defs Let_def)
  have s: "fst (segment_start plain_env plain_writer
          (snd (segment_end plain_writer (plain_opened\<lparr>seg := seg plain_opened\<rparr>)))) = 0"
    by (simp add: plain_opened_def packet_defs setting_defs Let_def)
  have p: "seg_write_packet second_open_fails plain_opened (key_packet 50)
       = Inr (- 5, after_packets second_open_fails plain_opened [key_packet 50])"
    "events (after_packets second_open_fails plain_opened [key_packet 50])
       = [AvioOpen ''out0'' 0, WriteHeader ''out0'' 0, WriteTrailer ''out0'' 0,
          AvioClose (Some ''out0''), OptFree, FreePriv, AvioOpen ''out1'' (- 5), FreeContext]"
    by (simp_all add: after_packets_def plain_opened_def second_open_fails_def packet_defs
          setting_defs Let_def)
  have q: "seg_write_packet plain_env plain_opened (key_packet 50)
       = Inr (0, after_packets plain_env plain_opened [key_packet 50])"
    "events (after_packets plain_env plain_opened [key_packet 50])
       = [AvioOpen ''out0'' 0, WriteHeader ''out0'' 0, WriteTrailer ''out0'' 0,
          AvioClose (Some ''out0''), OptFree, FreePriv, AvioOpen ''out1'' 0,
          WriteHeader ''out1'' 0, WritePacket ''out1'' 0]"
    by (simp_all add: after_packets_def plain_opened_def packet_defs setting_defs Let_def)
  have t: "seg_write_packet trailer_fails plain_opened (key_packet 50)
       = Inr (- 5, after_packets trailer_fails plain_opened [key_packet 50])"
    "events (after_packets trailer_fails plain_opened [key_packet 50])
       = [AvioOpen ''out0'' 0, WriteHeader ''out0'' 0, WriteTrailer ''out0'' (- 5),
          AvLogError ''out0'', AvioClose (Some ''out0''), OptFree, FreePriv, FreeContext]"
    by (simp_all add: after_packets_def plain_opened_def trailer_fails_def packet_defs
          setting_defs Let_def)
  show ?thesis
    using split_ends_before_start [OF f(1) i c refl refl]
      split_ends_before_start [OF f(2) i c refl refl]
      split_ends_before_start [OF f(3) i c refl refl]
      plain_header plain_header_ok plain_header_trailer f i c e n s p q t
    by simp
qed

subsection \<open>Parsing the valid frames\<close>

lemma array_write_in: "k < length a \<Longrightarrow> array_write a (int k) v = Inr (a[k := Some v])"
  by (simp add: array_write_def)

lemma array_write_out: "array_write a (int (length a)) v = Inl (OutOfBoundsWrite (int (length a)) (length a))"
  by (simp add: array_write_def)

lemma array_read_in: "k < length a \<Longrightarrow> a ! k = Some v \<Longrightarrow> array_read a (int k) = Inr v"
  by (simp add: array_read_def)

lemma parse_loop_step:
  assumes "k < length a" and "0 < k \<Longrightarrow> a ! (k - 1) = Some p"
  shows "parse_loop (t # rest) (int k) a =
     (if 0 < k \<and> strtol t \<le> p then Inr (AVERROR_EINVAL, a[k := Some (strtol t)])
      else parse_loop rest (int (Suc k)) (a[k := Some (strtol t)]))"
proof (cases "k = 0")
  case True
  then show ?thesis
    using assms(1) by (simp add: array_write_def)
next
  case False
  then have k: "0 < k" by simp
  have r1: "array_read (a[k := Some (strtol t)]) (int k) = Inr (strtol t)"
    using assms(1) by (simp add: array_read_def)
  have km: "nat (int k - 1) = k - 1" "0 \<le> int k - 1"
    using k by simp_all
  have r2: "array_read (a[k := Some (strtol t)]) (int k - 1) = Inr p"
    using assms k by (simp add: array_read_def km)
  have s: "int k + 1 = int (Suc k)"
    by simp
  show ?thesis
    using k assms(1) by (simp add: array_write_in r1 r2 s del: of_nat_Suc)
qed

lemma parse_loop_out_of_bounds:
  assumes "k \<le> length a" and "length a - k < length toks"
    and "0 < k \<Longrightarrow> a ! (k - 1) = Some p"
    and "sorted_wrt (<) ((if k = 0 then [] else [p]) @ map strtol (take (length a - k) toks))"
  shows "parse_loop toks (int k) a = Inl (OutOfBoundsWrite (int (length a)) (length a))"
  using assms
proof (induction toks arbitrary: k a p)
  case Nil
  then show ?case by simp
next
  case (Cons t rest)
  show ?case
  proof (cases "k = length a")
    case True
    then show ?thesis
      by (simp add: array_write_out)
  next
    case False
    then have k: "k < length a"
      using Cons.prems(1) by simp
    then obtain m where m: "length a - k = Suc m"
      by (metis Suc_diff_Suc)
    have ok: "\<not> (0 < k \<and> strtol t \<le> p)"
      using Cons.prems(4) by (auto simp: m)
    have step: "parse_loop (t # rest) (int k) a
        = parse_loop rest (int (Suc k)) (a[k := Some (strtol t)])"
      by (simp only: parse_loop_step [OF k Cons.prems(3)] ok if_False)
    have m': "length a - Suc k = m"
      using m by simp
    have sorted: "sorted_wrt (<) ((if Suc k = 0 then [] else [strtol t])
        @ map strtol (take (length (a[k := Some (strtol t)]) - Suc k) rest))"
      using Cons.prems(4) by (auto simp: m m' split: if_splits)
    have "parse_loop rest (int (Suc k)) (a[k := Some (strtol t)])
        = Inl (OutOfBoundsWrite (int (length (a[k := Some (strtol t)])))
                 (length (a[k := Some (strtol t)])))"
    proof (rule Cons.IH [where p = "strtol t"])
      show "Suc k \<le> length (a[k := Some (strtol t)])"
        using k by simp
      show "length (a[k := Some (strtol t)]) - Suc k < length rest"
        using Cons.prems(2) m by simp
      show "a[k := Some (strtol t)] ! (Suc k - 1) = Some (strtol t)"
        using k by simp
      show "sorted_wrt (<) ((if Suc k = 0 then [] else [strtol t])
        @ map strtol (take (length (a[k := Some (strtol t)]) - Suc k) rest))"
        by (rule sorted)
    qed
    then show ?thesis
      using step by simp
  qed
qed

lemma parse_loop_einval:
  assumes "j < length toks" and "k + j < length a"
    and "0 < k \<Longrightarrow> a ! (k - 1) = Some p"
    and "sorted_wrt (<) ((if k = 0 then [] else [p]) @ map strtol (take j toks))"
    and "if j = 0 then 0 < k \<and> strtol (toks ! 0) \<le> p
         else strtol (toks ! j) \<le> strtol (toks ! (j - 1))"
  shows "parse_loop toks (int k) a
     = Inr (AVERROR_EINVAL,
            take k a @ map (\<lambda>t. Some (strtol t)) (take (Suc j) toks) @ drop (k + Suc j) a)"
  using assms
proof (induction toks arbitrary: k a j p)
  case Nil
  then show ?case by simp
next
  case (Cons t rest)
  have k: "k < length a"
    using Cons.prems(2) by simp
  note step = parse_loop_step [OF k Cons.prems(3), of t rest]
  show ?case
  proof (cases j)
    case 0
    then have "0 < k \<and> strtol t \<le> p"
      using Cons.prems(5) by simp
    then show ?thesis
      using k 0 by (simp only: step if_True) (simp add: upd_conv_take_nth_drop)
  next
    case (Suc j')
    have ok: "\<not> (0 < k \<and> strtol t \<le> p)"
      using Cons.prems(4) Suc by auto
    define a1 where "a1 = a[k := Some (strtol t)]"
    have "parse_loop rest (int (Suc k)) a1
        = Inr (AVERROR_EINVAL,
            take (Suc k) a1 @ map (\<lambda>t. Some (strtol t)) (take (Suc j') rest)
              @ drop (Suc k + Suc j') a1)"
    proof (rule Cons.IH [where p = "strtol t"])
      show "j' < length rest"
        using Cons.prems(1) Suc by simp
      show "Suc k + j' < length a1"
        using Cons.prems(2) Suc by (simp add: a1_def)
      show "a1 ! (Suc k - 1) = Some (strtol t)"
        using k by (simp add: a1_def)
      show "sorted_wrt (<) ((if Suc k = 0 then [] else [strtol t]) @ map strtol (take j' rest))"
        using Cons.prems(4) Suc by (auto split: if_splits)
      show "if j' = 0 then 0 < Suc k \<and> strtol (rest ! 0) \<le> strtol t
            else strtol (rest ! j') \<le> strtol (rest ! (j' - 1))"
        using Cons.prems(5) Suc by (cases j') simp_all
    qed
    moreover have "take (Suc k) a1 = take k a @ [Some (strtol t)]"
      using k by (simp add: a1_def take_Suc_conv_app_nth)
    moreover have "drop (Suc k + Suc j') a1 = drop (k + Suc j) a"
      using Suc by (simp add: a1_def)
    ultimately show ?thesis
      using Suc by (simp only: step ok if_False a1_def) simp
  qed
qed

lemma parse_loop_length:
  "parse_loop toks i a = Inr (r, a1) \<Longrightarrow> length a1 = length a"
proof (induction toks arbitrary: i a)
  case Nil
  then show ?case by simp
next
  case (Cons t rest)
  from Cons.prems obtain a2 where w: "array_write a i (strtol t) = Inr a2"
    by (auto split: sum.splits)
  then have l: "length a2 = length a"
    by (auto simp: array_write_def split: if_splits)
  from Cons.prems w have "(r, a1) = (AVERROR_EINVAL, a2) \<or> parse_loop rest (i + 1) a2 = Inr (r, a1)"
    by (auto split: sum.splits if_splits)
  then show ?case
    using Cons.IH l by auto
qed

text \<open>
  C4. The count is the number of commas plus one, but the block has one entry per comma
  (line 66). So whenever the string holds as many values as the count says, and the values
  before the last ascend, the store of the last value (line 75) is at the index just
  behind the block. And whenever the function returns with a block, the count it has set
  is one more than the entries of the block.
\<close>

theorem last_value_stored_out_of_bounds:
  "(length (av_strtok_all (CHR '','') str) = count_commas str + 1
      \<and> sorted_wrt (<) (map strtol (take (count_commas str) (av_strtok_all (CHR '','') str)))
     \<longrightarrow> parse_valid_frames True str
           = Inl (OutOfBoundsWrite (int (count_commas str)) (count_commas str)))
   \<and> (parse_valid_frames ok str2 = Inr (r, Some a, nb)
     \<longrightarrow> nb = int (count_commas str2) + 1 \<and> length a = count_commas str2)"
proof -
  have oob: "parse_valid_frames True str
           = Inl (OutOfBoundsWrite (int (count_commas str)) (count_commas str))"
    if l: "length (av_strtok_all (CHR '','') str) = count_commas str + 1"
      and s: "sorted_wrt (<) (map strtol (take (count_commas str)
                (av_strtok_all (CHR '','') str)))"
  proof -
    have "parse_loop (av_strtok_all (CHR '','') str) (int 0) (replicate (count_commas str) None)
      = Inl (OutOfBoundsWrite (int (length (replicate (count_commas str) (None :: int option))))
               (length (replicate (count_commas str) (None :: int option))))"
      by (rule parse_loop_out_of_bounds [where p = 0]) (use l s in simp_all)
    then show ?thesis
      by (simp add: parse_valid_frames_def Let_def)
  qed
  have block: "nb = int (count_commas str2) + 1 \<and> length a = count_commas str2"
    if "parse_valid_frames ok str2 = Inr (r, Some a, nb)"
    using that parse_loop_length
    by (fastforce simp: parse_valid_frames_def Let_def split: if_splits sum.splits)
  show ?thesis
    using oob block by blast
qed

theorem last_value_stored_out_of_bounds_witness:
  "length (av_strtok_all (CHR '','') ''5,10'') = count_commas ''5,10'' + 1
   \<and> sorted_wrt (<) (map strtol (take (count_commas ''5,10'') (av_strtok_all (CHR '','') ''5,10'')))
   \<and> count_commas ''5,10'' = 1
   \<and> parse_valid_frames True ''5,10'' = Inl (OutOfBoundsWrite 1 1)
   \<and> parse_valid_frames True ''5,10,'' = Inr (0, Some [Some 5, Some 10], 3)
   \<and> count_commas ''5,10,'' = 2
   \<and> length [Some (5 :: int), Some 10] = 2"
proof -
  have l: "length (av_strtok_all (CHR '','') ''5,10'') = count_commas ''5,10'' + 1"
    by simp
  have s: "sorted_wrt (<) (map strtol (take (count_commas ''5,10'')
             (av_strtok_all (CHR '','') ''5,10'')))"
    by simp
  have c: "count_commas ''5,10'' = 1" "count_commas ''5,10,'' = 2"
    by simp_all
  have p: "parse_valid_frames True ''5,10,'' = Inr (0, Some [Some 5, Some 10], 3)"
    by (simp add: parse_valid_frames_def array_write_def array_read_def strtol_defs)
  show ?thesis
    using last_value_stored_out_of_bounds [of "''5,10''" True "''5,10,''" 0
        "[Some 5, Some 10]" 3] l s c p
    by simp
qed

text \<open>
  C9, as the code has it. Let the value at position \<open>j\<close> be the first that is not above
  its predecessor, and let its store be inside the block (\<open>j\<close> is below the number of
  commas). Then \<^verbatim>\<open>parse_valid_frames\<close> returns \<^verbatim>\<open>AVERROR(EINVAL)\<close>, and the caller is
  left with the count (commas plus one) and the block, which holds the values up to and
  including that one.
\<close>

theorem non_ascending_rejected:
  assumes "0 < j" and "j < length (av_strtok_all (CHR '','') str)" and "j < count_commas str"
    and "sorted_wrt (<) (map strtol (take j (av_strtok_all (CHR '','') str)))"
    and "strtol (av_strtok_all (CHR '','') str ! j)
           \<le> strtol (av_strtok_all (CHR '','') str ! (j - 1))"
  shows "parse_valid_frames True str
           = Inr (AVERROR_EINVAL,
                  Some (map (\<lambda>t. Some (strtol t)) (take (Suc j) (av_strtok_all (CHR '','') str))
                        @ replicate (count_commas str - Suc j) None),
                  int (count_commas str) + 1)"
proof -
  have "parse_loop (av_strtok_all (CHR '','') str) (int 0) (replicate (count_commas str) None)
      = Inr (AVERROR_EINVAL,
             take 0 (replicate (count_commas str) None)
             @ map (\<lambda>t. Some (strtol t)) (take (Suc j) (av_strtok_all (CHR '','') str))
             @ drop (0 + Suc j) (replicate (count_commas str) None))"
    by (rule parse_loop_einval [where p = 0]) (use assms in simp_all)
  then show ?thesis
    by (simp add: parse_valid_frames_def Let_def)
qed

theorem non_ascending_rejected_witness:
  "(0 :: nat) < 1 \<and> 1 < length (av_strtok_all (CHR '','') ''5,5,7'')
   \<and> 1 < count_commas ''5,5,7''
   \<and> sorted_wrt (<) (map strtol (take 1 (av_strtok_all (CHR '','') ''5,5,7'')))
   \<and> strtol (av_strtok_all (CHR '','') ''5,5,7'' ! 1)
        \<le> strtol (av_strtok_all (CHR '','') ''5,5,7'' ! (1 - 1))
   \<and> parse_valid_frames True ''5,5,7'' = Inr (AVERROR_EINVAL, Some [Some 5, Some 5], 3)"
proof -
  have a: "(0 :: nat) < 1" "1 < length (av_strtok_all (CHR '','') ''5,5,7'')"
    "1 < count_commas ''5,5,7''"
    "sorted_wrt (<) (map strtol (take 1 (av_strtok_all (CHR '','') ''5,5,7'')))"
    "strtol (av_strtok_all (CHR '','') ''5,5,7'' ! 1)
        \<le> strtol (av_strtok_all (CHR '','') ''5,5,7'' ! (1 - 1))"
    by (simp_all add: strtol_defs)
  show ?thesis
    using non_ascending_rejected [OF a] a by (simp add: strtol_defs)
qed

text \<open>
  C9 as stated fails: on \<^verbatim>\<open>"10,3,20"\<close> the function returns \<^verbatim>\<open>AVERROR(EINVAL)\<close> and leaves
  the count 3 and the block with 10 and 3 in it; \<^verbatim>\<open>seg_write_header\<close> returns with both
  in the context.
\<close>

theorem partial_list_counterexample:
  "parse_valid_frames True ''10,3,20'' = Inr (AVERROR_EINVAL, Some [Some 10, Some 3], 3)
   \<and> seg_write_header plain_env descending_session
       = Inr (AVERROR_EINVAL, after_header plain_env descending_session)
   \<and> valid_frames (seg (after_header plain_env descending_session)) = Some [Some 10, Some 3]
   \<and> nb_valid_frames (seg (after_header plain_env descending_session)) = 3"
  by (simp add: after_header_def header_defs strtol_defs setting_defs descending_session_def
        AVERROR_EINVAL_def Let_def)

subsection \<open>The playlist\<close>

lemma forward_packet_result:
  assumes "0 \<le> fst (forward_packet fmt strm pkt st)"
  shows "playlist (snd (forward_packet fmt strm pkt st)) = playlist st"
    and "number (seg (snd (forward_packet fmt strm pkt st))) = number (seg st)"
    and "size_seg (seg (snd (forward_packet fmt strm pkt st))) = size_seg (seg st)"
    and "filename (oc (snd (forward_packet fmt strm pkt st))) = filename (oc st)"
  using assms by (simp_all add: forward_packet_frame)

text \<open>
  C5, as the code has it. After a split that succeeds (both \<^verbatim>\<open>segment_end\<close> and
  \<^verbatim>\<open>segment_start\<close> return 0 and the packet's result is not negative) with a playlist
  configured, the new name is printed to the list first; then, if \<^verbatim>\<open>seg->size\<close> is not 0
  and divides the counter \<^verbatim>\<open>seg->number\<close>, the list is closed and opened again, which
  leaves the file empty: the entry just printed is discarded with the earlier ones.
\<close>

theorem playlist_after_split:
  assumes e0: "fst (segment_end fmt st) = 0"
    and s0: "fst (segment_start e fmt (snd (segment_end fmt st))) = 0"
    and l: "list_seg (seg st) = Some l"
    and r: "split_segment e fmt strm pkt st = (ret, st1)" and ok: "0 \<le> ret"
  shows "playlist st1 =
           (if size_seg (seg st1) \<noteq> 0 \<and> c_rem (number (seg st1)) (size_seg (seg st1)) = 0
            then [] else playlist st @ [filename (oc st1)])"
proof -
  define st2 where "st2 = snd (segment_start e fmt (snd (segment_end fmt st)))"
  have l2: "list_seg (seg st2) = Some l"
    using l by (simp add: st2_def segment_start_frame segment_end_frame)
  have p2: "playlist st2 = playlist st"
    by (simp add: st2_def segment_start_frame segment_end_frame)
  define st3 where "st3 = print_list l st2"
  have unf: "split_segment e fmt strm pkt st =
      (if size_seg (seg st3) \<noteq> 0 \<and> c_rem (number (seg st3)) (size_seg (seg st3)) = 0
       then (let reopened = open_list e l (log_ev (AvioClose (Some l)) st3)
             in if fst reopened < 0 then packet_fail (fst reopened) (snd reopened)
                else forward_packet fmt strm pkt (snd reopened))
       else forward_packet fmt strm pkt st3)"
    using e0 s0 l2 by (simp add: split_segment_def Let_def st2_def [symmetric] st3_def)
  show ?thesis
  proof (cases "size_seg (seg st3) \<noteq> 0 \<and> c_rem (number (seg st3)) (size_seg (seg st3)) = 0")
    case False
    have "split_segment e fmt strm pkt st = forward_packet fmt strm pkt st3"
      unfolding unf using False by (rule if_not_P)
    then have eq: "forward_packet fmt strm pkt st3 = (ret, st1)"
      using r by simp
    have f: "0 \<le> fst (forward_packet fmt strm pkt st3)"
      using eq ok by simp
    have "st1 = snd (forward_packet fmt strm pkt st3)"
      using eq by simp
    then show ?thesis
      using False forward_packet_result [OF f] p2 by (simp add: st3_def)
  next
    case True
    define ro where "ro = open_list e l (log_ev (AvioClose (Some l)) st3)"
    have nf: "\<not> fst ro < 0"
    proof
      assume "fst ro < 0"
      then have "split_segment e fmt strm pkt st = packet_fail (fst ro) (snd ro)"
        using unf True by (simp add: Let_def ro_def)
      then have "fst (split_segment e fmt strm pkt st) = fst ro"
        by (simp add: packet_fail_frame)
      then have "ret = fst ro"
        using r by simp
      then show False
        using ok \<open>fst ro < 0\<close> by simp
    qed
    then have eq: "forward_packet fmt strm pkt (snd ro) = (ret, st1)"
      using unf True r by (simp add: Let_def ro_def)
    have f: "0 \<le> fst (forward_packet fmt strm pkt (snd ro))"
      using eq ok by simp
    have st1: "st1 = snd (forward_packet fmt strm pkt (snd ro))"
      using eq by simp
    have "playlist (snd ro) = []"
      using nf by (simp add: ro_def)
    moreover have "seg (snd ro) = seg st3"
      by (simp add: ro_def)
    ultimately show ?thesis
      using True forward_packet_result [OF f] by (simp add: st1)
  qed
qed

lemma three_listed_value:
  "three_listed = list_session
     \<lparr>seg := plain_seg\<lparr>list_seg := Some ''list'', size_seg := 2, number := 3, has_video := 1,
                        frame_count := 2\<rparr>,
      oc := \<lparr>filename = ''out2'', pb = Some ''out2'', priv_data = True,
              streams = [video_stream, audio_stream]\<rparr>,
      events := [AvioOpen ''list'' 0, AvioOpen ''out0'' 0, WriteHeader ''out0'' 0,
        AvioPrintf ''list'' ''out0'', WriteTrailer ''out0'' 0, AvioClose (Some ''out0''),
        OptFree, FreePriv, AvioOpen ''out1'' 0, WriteHeader ''out1'' 0,
        AvioPrintf ''list'' ''out1'', AvioClose (Some ''list''), AvioOpen ''list'' 0,
        WritePacket ''out1'' 0, WriteTrailer ''out1'' 0, AvioClose (Some ''out1''), OptFree,
        FreePriv, AvioOpen ''out2'' 0, WriteHeader ''out2'' 0, AvioPrintf ''list'' ''out2'',
        WritePacket ''out2'' 0],
      playlist := [''out2'']\<rparr>"
  by (simp add: three_listed_def after_packets_def after_header_def header_defs packet_defs
        setting_defs list_session_def Let_def)

lemma four_listed_value:
  "four_listed = three_listed
     \<lparr>seg := (seg three_listed)\<lparr>number := 4, frame_count := 3\<rparr>,
      oc := (oc three_listed)\<lparr>filename := ''out3'', pb := Some ''out3''\<rparr>,
      events := events three_listed @ [WriteTrailer ''out2'' 0, AvioClose (Some ''out2''),
        OptFree, FreePriv, AvioOpen ''out3'' 0, WriteHeader ''out3'' 0,
        AvioPrintf ''list'' ''out3'', AvioClose (Some ''list''), AvioOpen ''list'' 0,
        WritePacket ''out3'' 0],
      playlist := []\<rparr>"
  unfolding four_listed_def three_listed_value
  by (simp add: after_packets_def packet_defs setting_defs list_session_def Let_def)

theorem playlist_after_split_witness:
  "fst (segment_end plain_writer three_listed) = 0
   \<and> fst (segment_start plain_env plain_writer (snd (segment_end plain_writer three_listed))) = 0
   \<and> list_seg (seg three_listed) = Some ''list''
   \<and> split_segment plain_env plain_writer video_stream (key_packet 150) three_listed
       = (0, four_listed)
   \<and> (0 :: int) \<le> 0
   \<and> size_seg (seg four_listed) = 2 \<and> number (seg four_listed) = 4
   \<and> c_rem (number (seg four_listed)) (size_seg (seg four_listed)) = 0
   \<and> playlist three_listed = [''out2'']
   \<and> playlist four_listed = []"
proof -
  have a: "fst (segment_end plain_writer three_listed) = 0"
    "fst (segment_start plain_env plain_writer (snd (segment_end plain_writer three_listed))) = 0"
    "list_seg (seg three_listed) = Some ''list''"
    unfolding three_listed_value
    by (simp_all add: packet_defs setting_defs list_session_def Let_def)
  have s: "split_segment plain_env plain_writer video_stream (key_packet 150) three_listed
       = (0, four_listed)"
    unfolding four_listed_value unfolding three_listed_value
    by (simp add: packet_defs setting_defs list_session_def Let_def)
  have z: "(0 :: int) \<le> 0"
    by simp
  have v: "size_seg (seg four_listed) = 2" "number (seg four_listed) = 4"
    "c_rem (number (seg four_listed)) (size_seg (seg four_listed)) = 0"
    "playlist three_listed = [''out2'']"
    unfolding four_listed_value unfolding three_listed_value
    by (simp_all add: c_rem_def setting_defs list_session_def)
  show ?thesis
    using playlist_after_split [OF a s z] a s v by simp
qed

text \<open>
  C5 as stated fails: with size 2, once the segments \<^verbatim>\<open>out0\<close> to \<^verbatim>\<open>out3\<close> have been
  started and printed the playlist file is empty, and after \<^verbatim>\<open>out4\<close> it holds that one
  name.
\<close>

theorem playlist_rotation_counterexample:
  "seg_write_header plain_env list_session = Inr (0, after_header plain_env list_session)
   \<and> run_packets plain_env (after_header plain_env list_session)
        [key_packet 50, key_packet 100, key_packet 150] = Inr (0, four_listed)
   \<and> segments_started four_listed = 4
   \<and> events four_listed = [AvioOpen ''list'' 0, AvioOpen ''out0'' 0, WriteHeader ''out0'' 0,
        AvioPrintf ''list'' ''out0'', WriteTrailer ''out0'' 0, AvioClose (Some ''out0''),
        OptFree, FreePriv, AvioOpen ''out1'' 0, WriteHeader ''out1'' 0,
        AvioPrintf ''list'' ''out1'', AvioClose (Some ''list''), AvioOpen ''list'' 0,
        WritePacket ''out1'' 0, WriteTrailer ''out1'' 0, AvioClose (Some ''out1''), OptFree,
        FreePriv, AvioOpen ''out2'' 0, WriteHeader ''out2'' 0, AvioPrintf ''list'' ''out2'',
        WritePacket ''out2'' 0, WriteTrailer ''out2'' 0, AvioClose (Some ''out2''),
        OptFree, FreePriv, AvioOpen ''out3'' 0, WriteHeader ''out3'' 0,
        AvioPrintf ''list'' ''out3'', AvioClose (Some ''list''), AvioOpen ''list'' 0,
        WritePacket ''out3'' 0]
   \<and> playlist four_listed = []
   \<and> playlist four_listed \<noteq> [''out2'', ''out3'']
   \<and> run_packets plain_env four_listed [key_packet 200] = Inr (0, five_listed)
   \<and> playlist five_listed = [''out4'']"
  by code_simp

subsection \<open>The counter, the boundary and the wrap\<close>

lemma int64_wrap_id:
  "- 9223372036854775808 \<le> x \<Longrightarrow> x < 9223372036854775808 \<Longrightarrow> int64_wrap x = x"
  by (simp add: int64_wrap_def)

lemma can_split_reaches_boundary:
  assumes "can_split sg strm pkt = Inr (True, sg1)"
  shows "int64_wrap (recording_time sg * number sg) * snd (time_base strm)
           \<le> pts pkt * fst (time_base strm) * 1000000"
proof -
  have "0 \<le> av_compare_ts (pts pkt) (time_base strm)
               (int64_wrap (recording_time sg * number sg)) AV_TIME_BASE_Q"
    using assms by (auto simp: can_split_def Let_def split: if_splits sum.splits)
  then show ?thesis
    by (simp add: av_compare_ts_nonneg)
qed

lemma session_of_run:
  assumes "session_of e st0 st" and "run_packets e st ps = Inr (r, st1)" and "0 \<le> r"
  shows "session_of e st0 st1"
  using assms
proof (induction ps arbitrary: st)
  case Nil
  then show ?case by simp
next
  case (Cons p ps)
  from Cons.prems(2) obtain r1 st2 where
    step: "seg_write_packet e st p = Inr (r1, st2)"
    by (auto split: sum.splits)
  show ?case
  proof (cases "r1 < 0")
    case True
    then have "r = r1"
      using Cons.prems(2) step by simp
    then show ?thesis
      using True Cons.prems(3) by simp
  next
    case False
    then have "run_packets e st2 ps = Inr (r, st1)"
      using Cons.prems(2) step by simp
    moreover have "session_of e st0 st2"
      using session_of.packet [OF Cons.prems(1) step] False by simp
    ultimately show ?thesis
      using Cons.IH Cons.prems(3) by blast
  qed
qed

text \<open>
  C2. The claim wants the boundary before a split to be the segment length times the
  number of segments started, with \<^verbatim>\<open>segment_wrap\<close> acting on the index of the name only.
  The code keeps one counter, \<^verbatim>\<open>seg->number\<close>: \<^verbatim>\<open>segment_start\<close> reduces it modulo
  \<^verbatim>\<open>seg->wrap\<close> in place (line 97) and line 254 multiplies it with \<^verbatim>\<open>recording_time\<close>. With
  \<^verbatim>\<open>segment_wrap\<close> 2 and segments of 2 seconds, the key frames at 2 and 4 seconds start the
  second and the third segment, which is named \<^verbatim>\<open>out0\<close> again, and the counter is back at 1.
  The key frame at 101/25 seconds is before three times two seconds, yet \<^verbatim>\<open>can_split\<close> is
  set and the fourth segment is started. From the wrap on every key frame starts a
  segment: the six key frames lead to seven segments, and to three in the same session
  without \<^verbatim>\<open>segment_wrap\<close>.
\<close>

theorem wrap_resets_boundary:
  "seg_write_header plain_env wrap_session = Inr (0, after_header plain_env wrap_session)
   \<and> run_packets plain_env (after_header plain_env wrap_session) [key_packet 50, key_packet 100]
       = Inr (0, wrapped_three)
   \<and> wrap (seg wrapped_three) = 2
   \<and> segments_started wrapped_three = 3
   \<and> number (seg wrapped_three) = 1
   \<and> filename (oc wrapped_three) = ''out0''
   \<and> recording_time (seg wrapped_three) = 2000000
   \<and> time_base video_stream = (1, 25)
   \<and> pts (key_packet 101) * 1 * 1000000 < 2000000 * 3 * 25
   \<and> can_split (seg wrapped_three) video_stream (key_packet 101)
       = Inr (True, seg wrapped_three)
   \<and> seg_write_packet plain_env wrapped_three (key_packet 101)
       = Inr (0, after_packets plain_env wrapped_three [key_packet 101])
   \<and> segments_started (after_packets plain_env wrapped_three [key_packet 101]) = 4
   \<and> run_packets plain_env (after_header plain_env wrap_session) six_key_frames
       = Inr (0, after_packets plain_env (after_header plain_env wrap_session) six_key_frames)
   \<and> segments_started
         (after_packets plain_env (after_header plain_env wrap_session) six_key_frames) = 7
   \<and> seg_write_header plain_env plain_session = Inr (0, after_header plain_env plain_session)
   \<and> run_packets plain_env (after_header plain_env plain_session) six_key_frames
       = Inr (0, after_packets plain_env (after_header plain_env plain_session) six_key_frames)
   \<and> segments_started
         (after_packets plain_env (after_header plain_env plain_session) six_key_frames) = 3"
  by code_simp

subsection \<open>The split decision\<close>

text \<open>
  The other conditions of the split are as the code tests them: \<^verbatim>\<open>can_split\<close> is set only
  for a key frame of a video stream in a session with a video stream, at or after
  \<^verbatim>\<open>recording_time\<close> times the stored counter, and, when valid frames are configured, with
  the cursor's frame number equal to the count of video frames so far. With \<open>(n, d)\<close> the
  stream's time base the time test is \<open>end_pts / 1000000 \<le> pts * n / d\<close>, written without
  the divisions. A packet for which \<^verbatim>\<open>can_split\<close> is not set starts no segment: it is
  written to the current one. In a session opened without \<^verbatim>\<open>segment_wrap\<close> the counter is
  the number of segments started, and a packet that splits has reached \<^verbatim>\<open>recording_time\<close>
  times that number (as long as the product fits the 64 bits).
\<close>

lemma verdict_only_if:
  assumes "can_split sg strm pkt = Inr (True, sg1)"
  shows "has_video sg \<noteq> 0
       \<and> codec_type strm = AVMEDIA_TYPE_VIDEO
       \<and> (flags pkt AND AV_PKT_FLAG_KEY) \<noteq> 0
       \<and> int64_wrap (recording_time sg * number sg) * snd (time_base strm)
            \<le> pts pkt * fst (time_base strm) * 1000000
       \<and> (nb_valid_frames sg \<noteq> 0 \<longrightarrow> next_valid_frame sg1 = frame_count sg)"
proof -
  have fc: "frame_count sg1 = frame_count sg"
    using can_split_keeps(3) [OF assms] .
  have rest: "has_video sg \<noteq> 0 \<and> codec_type strm = AVMEDIA_TYPE_VIDEO
       \<and> (flags pkt AND AV_PKT_FLAG_KEY) \<noteq> 0
       \<and> (nb_valid_frames sg \<noteq> 0 \<longrightarrow> next_valid_frame sg1 = frame_count sg1)"
    using assms by (auto simp: can_split_def Let_def split: if_splits sum.splits)
  show ?thesis
    using rest fc can_split_reaches_boundary [OF assms] by auto
qed

lemma no_verdict_no_split:
  assumes "seg_write_packet e st pkt = Inr (r, st1)"
    and "can_split (seg st) (streams (oc st) ! nat (stream_index pkt)) pkt = Inr (False, sg1)"
  shows "segments_started st1 = segments_started st" and "number (seg st1) = number (seg st)"
    and "events st1 = events st @ WritePacket (filename (oc st)) r
           # (if r < 0 then (case list_seg (seg st) of None \<Rightarrow> [] | Some l \<Rightarrow> [AvioClose (Some l)])
                @ [FreeContext] else [])"
proof -
  from assms(1) obtain fmt strm b sg2 where
    strm: "strm = streams (oc st) ! nat (stream_index pkt)"
    and cs: "can_split (seg st) strm pkt = Inr (b, sg2)"
    and res: "(r, st1) = (if b then split_segment e fmt strm pkt (st\<lparr>seg := sg2\<rparr>)
                 else forward_packet fmt strm pkt (st\<lparr>seg := sg2\<rparr>))"
    by (rule seg_write_packet_cases)
  have b: "\<not> b" "sg2 = sg1"
    using cs assms(2) strm by simp_all
  then have eq: "forward_packet fmt strm pkt (st\<lparr>seg := sg1\<rparr>) = (r, st1)"
    using res by simp
  then have st1: "st1 = snd (forward_packet fmt strm pkt (st\<lparr>seg := sg1\<rparr>))"
    by simp
  have l: "list_seg sg1 = list_seg (seg st)"
    using assms(2)
    by (auto simp: can_split_def advance_cursor_def Let_def
             split: if_splits sum.splits option.splits)
  show "segments_started st1 = segments_started st" "number (seg st1) = number (seg st)"
    using can_split_keeps(1) [OF assms(2)] by (simp_all add: st1 forward_packet_frame)
  show "events st1 = events st @ WritePacket (filename (oc st)) r
           # (if r < 0 then (case list_seg (seg st) of None \<Rightarrow> [] | Some l \<Rightarrow> [AvioClose (Some l)])
                @ [FreeContext] else [])"
    using eq l by (auto simp: forward_packet_def packet_fail_def Let_def split: option.splits if_splits)
qed

lemma unwrapped_split_reaches_count:
  assumes "session_of e st0 st" and "events st0 = []" and "wrap (seg st0) = 0"
    and "can_split (seg st) strm pkt = Inr (True, sg1)"
    and "- 9223372036854775808 \<le> recording_time (seg st) * segments_started st"
    and "recording_time (seg st) * segments_started st < 9223372036854775808"
  shows "recording_time (seg st) * segments_started st * snd (time_base strm)
           \<le> pts pkt * fst (time_base strm) * 1000000"
proof -
  have n: "number (seg st) = segments_started st"
    using session_of_counter [of e st0 st] assms(1-3) by simp
  have "int64_wrap (recording_time (seg st) * number (seg st))
          = recording_time (seg st) * segments_started st"
    using assms(5,6) by (simp add: n int64_wrap_id)
  then show ?thesis
    using can_split_reaches_boundary [OF assms(4)] by simp
qed

text \<open>
  C1. The claim lets a packet split only if its timestamp has reached the segment length
  times the number of segments started so far. \<^verbatim>\<open>seg_write_packet\<close> tests the timestamp
  against \<^verbatim>\<open>recording_time\<close> times \<^verbatim>\<open>seg->number\<close> (line 254), the counter that
  \<^verbatim>\<open>segment_start\<close> has reduced modulo \<^verbatim>\<open>seg->wrap\<close> (line 97). With \<^verbatim>\<open>segment_wrap\<close> 1 and
  segments of 2 seconds, after the key frame at 2 seconds two segments have been started
  and the counter is 1. The key frame at 51/25 seconds is before two times two seconds,
  and the packet splits: \<^verbatim>\<open>can_split\<close> is set and the third segment is started.
\<close>

theorem split_before_boundary:
  "seg_write_header plain_env wrap_one_session
     = Inr (0, after_header plain_env wrap_one_session)
   \<and> run_packets plain_env (after_header plain_env wrap_one_session) [key_packet 50]
       = Inr (0, wrap_one_second)
   \<and> wrap (seg wrap_one_second) = 1
   \<and> segments_started wrap_one_second = 2
   \<and> number (seg wrap_one_second) = 1
   \<and> recording_time (seg wrap_one_second) = 2000000
   \<and> time_base video_stream = (1, 25)
   \<and> pts (key_packet 51) * 1 * 1000000 < 2000000 * 2 * 25
   \<and> can_split (seg wrap_one_second) video_stream (key_packet 51)
       = Inr (True, seg wrap_one_second)
   \<and> seg_write_packet plain_env wrap_one_second (key_packet 51)
       = Inr (0, after_packets plain_env wrap_one_second [key_packet 51])
   \<and> segments_started (after_packets plain_env wrap_one_second [key_packet 51]) = 3"
  by code_simp

end
